theory Spec2Isabelle
  imports Complex_Main
begin

section \<open>Errors and Python list indexing\<close>

text \<open>
  The notebook \<^verbatim>\<open>Chapter02/Task_Tuning_Falcon.ipynb\<close> handles no exception: every raise ends
  the run. A raise is a value \<open>Inl e\<close> of the result type.
\<close>

datatype error = IndexError | ZeroDivisionError | RuntimeError | ValueError

type_synonym 'a result = "error + 'a"

text \<open>
  \<^verbatim>\<open>xs[idx]\<close> on a Python list: an index from \<open>0\<close> to \<open>len - 1\<close> reads that position, an
  index from \<open>-len\<close> to \<open>-1\<close> counts from the end, every other index raises IndexError.
\<close>

definition py_index :: "'a list \<Rightarrow> int \<Rightarrow> 'a result" where
  "py_index xs idx =
     (if 0 \<le> idx \<and> idx < int (length xs) then Inr (xs ! nat idx)
      else if - int (length xs) \<le> idx \<and> idx < 0 then Inr (xs ! nat (int (length xs) + idx))
      else Inl IndexError)"

section \<open>The tokenizer call\<close>

text \<open>
  \<^verbatim>\<open>tokenizer = AutoTokenizer.from_pretrained(model_name)\<close> followed by
  \<^verbatim>\<open>tokenizer.pad_token = tokenizer.eos_token\<close>. The vocabulary is outside the repository:
  \<open>encode\<close> is the text-to-ids function of the loaded tokenizer.
\<close>

record PreTrainedTokenizer =
  encode :: "string \<Rightarrow> int list"
  eos_token_id :: int
  pad_token_id :: int

definition set_pad_token_to_eos :: "PreTrainedTokenizer \<Rightarrow> PreTrainedTokenizer" where
  "set_pad_token_to_eos tok = tok\<lparr>pad_token_id := eos_token_id tok\<rparr>"

text \<open>
  The value of one tokenizer call with \<^verbatim>\<open>return_tensors="pt"\<close>: two integer tensors of shape
  \<open>[1, L]\<close>, a list holding the single row.
\<close>

record BatchEncoding =
  enc_input_ids :: "int list list"
  enc_attention_mask :: "int list list"

text \<open>
  Modelled from the spec: the library function behind
  \<^verbatim>\<open>tokenizer(sentence1, sentence2, padding='max_length', truncation=True, max_length=max_length, return_tensors="pt")\<close>
  is not part of the repository. The spec derives the tokenized example "via
  padding/truncation to a configured maximum length"; the keyword arguments of the call fix
  the strategy. \<^verbatim>\<open>truncation=True\<close> on a sentence pair removes one token at a time from the end
  of the longer sentence (from the second one on a tie) until the pair fits.
\<close>

function truncate_longest_first :: "int list \<Rightarrow> int list \<Rightarrow> nat \<Rightarrow> int list \<times> int list" where
  "truncate_longest_first ids pair_ids max_length =
     (if length ids + length pair_ids \<le> max_length then (ids, pair_ids)
      else if length ids > length pair_ids
        then truncate_longest_first (butlast ids) pair_ids max_length
        else truncate_longest_first ids (butlast pair_ids) max_length)"
  by pat_completeness auto
termination
  by (relation "measure (\<lambda>(ids, pair_ids, max_length). length ids + length pair_ids)") auto

text \<open>
  Modelled from the spec: \<^verbatim>\<open>padding='max_length'\<close> fills the id sequence with the padding id up
  to \<open>max_length\<close>; the attention mask is 1 on the tokens and 0 on the padding.
\<close>

definition pad_to_max_length :: "int \<Rightarrow> nat \<Rightarrow> int list \<Rightarrow> int list \<times> int list" where
  "pad_to_max_length pad max_length ids =
     (ids @ replicate (max_length - length ids) pad,
      replicate (length ids) 1 @ replicate (max_length - length ids) 0)"

text \<open>
  Modelled from the spec: the tokenizer call as a whole. The two sentences are encoded, the
  pair is truncated, the concatenation is padded with the padding id, and both results come
  back as tensors of shape \<open>[1, max_length]\<close> (\<^verbatim>\<open>return_tensors="pt"\<close>).
\<close>

definition tokenizer_call :: "PreTrainedTokenizer \<Rightarrow> string \<Rightarrow> string \<Rightarrow> nat \<Rightarrow> BatchEncoding" where
  "tokenizer_call tok sentence1 sentence2 max_length =
     (let (ids, pair_ids) =
            truncate_longest_first (encode tok sentence1) (encode tok sentence2) max_length;
          (padded, mask) = pad_to_max_length (pad_token_id tok) max_length (ids @ pair_ids)
      in \<lparr>enc_input_ids = [padded], enc_attention_mask = [mask]\<rparr>)"

section \<open>GlueDataset\<close>

text \<open>
  A split of \<^verbatim>\<open>load_dataset("glue", "mrpc")\<close> is a table: a list of rows, read by column
  (\<^verbatim>\<open>raw_datasets['sentence1']\<close>).
\<close>

record RawRow =
  sentence1 :: string
  sentence2 :: string
  label :: int

type_synonym RawDataset = "RawRow list"

definition column :: "(RawRow \<Rightarrow> 'a) \<Rightarrow> RawDataset \<Rightarrow> 'a list" where
  "column f raw_datasets = map f raw_datasets"

text \<open>
  The fields \<^verbatim>\<open>self.inputs\<close> and \<^verbatim>\<open>self.labels\<close>. (\<^verbatim>\<open>self.tokenizer\<close> is stored and never read
  again.)
\<close>

record GlueDataset =
  inputs :: "BatchEncoding list"
  labels :: "int list"

text \<open>
  \<^verbatim>\<open>__init__\<close>: the loop over \<^verbatim>\<open>zip(raw_datasets['sentence1'], raw_datasets['sentence2'], raw_datasets['label'])\<close>
  appends one tokenized input and one label per triple.
\<close>

definition GlueDataset_append ::
  "PreTrainedTokenizer \<Rightarrow> nat \<Rightarrow> GlueDataset \<Rightarrow> string \<times> string \<times> int \<Rightarrow> GlueDataset" where
  "GlueDataset_append tok max_length self triple =
     (case triple of (s1, s2, l) \<Rightarrow>
        self\<lparr>inputs := inputs self @ [tokenizer_call tok s1 s2 max_length],
             labels := labels self @ [l]\<rparr>)"

definition GlueDataset_init :: "PreTrainedTokenizer \<Rightarrow> RawDataset \<Rightarrow> nat \<Rightarrow> GlueDataset" where
  "GlueDataset_init tok raw_datasets max_length =
     foldl (GlueDataset_append tok max_length) \<lparr>inputs = [], labels = []\<rparr>
       (zip (column sentence1 raw_datasets)
            (zip (column sentence2 raw_datasets) (column label raw_datasets)))"

text \<open>The default \<^verbatim>\<open>max_length=128\<close> of the constructor.\<close>

definition default_max_length :: nat where
  "default_max_length = 128"

text \<open>\<^verbatim>\<open>__len__\<close>: \<^verbatim>\<open>len(self.inputs)\<close>.\<close>

definition GlueDataset_len :: "GlueDataset \<Rightarrow> nat" where
  "GlueDataset_len self = length (inputs self)"

text \<open>
  \<^verbatim>\<open>val.squeeze(0)\<close> on a tensor of shape \<open>[1, L]\<close> is its row. The tokenizer call above returns
  no other shape, and the function is left unspecified elsewhere.
\<close>

fun squeeze0 :: "'a list list \<Rightarrow> 'a list" where
  "squeeze0 [row] = row"

text \<open>The dictionary returned by \<^verbatim>\<open>__getitem__\<close>, with its three keys.\<close>

record Item =
  item_input_ids :: "int list"
  item_attention_mask :: "int list"
  item_labels :: int

text \<open>
  \<^verbatim>\<open>__getitem__\<close>: \<^verbatim>\<open>self.inputs[idx]\<close> is read first, then \<^verbatim>\<open>self.labels[idx]\<close>; either may
  raise IndexError.
\<close>

definition GlueDataset_getitem :: "GlueDataset \<Rightarrow> int \<Rightarrow> Item result" where
  "GlueDataset_getitem self idx =
     (case py_index (inputs self) idx of
        Inl e \<Rightarrow> Inl e
      | Inr enc \<Rightarrow>
          (case py_index (labels self) idx of
             Inl e \<Rightarrow> Inl e
           | Inr l \<Rightarrow>
               Inr \<lparr>item_input_ids = squeeze0 (enc_input_ids enc),
                    item_attention_mask = squeeze0 (enc_attention_mask enc),
                    item_labels = l\<rparr>))"

section \<open>Tensors, parameters and the base model\<close>

text \<open>
  A float tensor of one or two dimensions; the values are real numbers (the rounding of
  floating-point arithmetic is not modelled).
\<close>

datatype tensor = Vec "real list" | Mat "real list list"

text \<open>
  A trainable parameter: its values, the flag \<^verbatim>\<open>requires_grad\<close> and the accumulated gradient
  \<^verbatim>\<open>.grad\<close>. A fresh \<^verbatim>\<open>nn.Parameter\<close> requires gradients and has none yet.
\<close>

record Parameter =
  data :: tensor
  requires_grad :: bool
  grad :: "tensor option"

definition new_parameter :: "tensor \<Rightarrow> Parameter" where
  "new_parameter t = \<lparr>data = t, requires_grad = True, grad = None\<rparr>"

text \<open>
  The base model. Its network is outside the repository: \<open>architecture\<close> maps the training
  flag, the current parameter values and one example's token ids and attention mask to that
  example's hidden states (one vector per token), or fails. \<open>graph_parameters\<close> names the
  parameters that the network reads when it computes the hidden states: they are the ones
  that the autograd graph of its output contains.
\<close>

record PreTrainedModel =
  hidden_size :: nat
  base_parameters :: "(string \<times> Parameter) list"
  architecture ::
    "bool \<Rightarrow> (string \<times> tensor) list \<Rightarrow> int list \<Rightarrow> int list \<Rightarrow> real list list result"
  graph_parameters :: "string list"
  base_training :: bool

text \<open>
  Modelled from the spec: \<^verbatim>\<open>AutoModel.from_pretrained(model_name)\<close> is library code. It returns
  the network in evaluation mode with the weights of the checkpoint as parameters; the spec
  calls the base model "not actually frozen": every loaded parameter requires gradients, and
  the notebook never clears the flag.
\<close>

definition from_pretrained ::
  "nat \<Rightarrow> (string \<times> tensor) list \<Rightarrow>
   (bool \<Rightarrow> (string \<times> tensor) list \<Rightarrow> int list \<Rightarrow> int list \<Rightarrow> real list list result) \<Rightarrow>
   string list \<Rightarrow> PreTrainedModel" where
  "from_pretrained hs weights arch reads =
     \<lparr>hidden_size = hs,
      base_parameters = map (\<lambda>(n, t). (n, new_parameter t)) weights,
      architecture = arch,
      graph_parameters = reads,
      base_training = False\<rparr>"

definition parameter_values :: "(string \<times> Parameter) list \<Rightarrow> (string \<times> tensor) list" where
  "parameter_values ps = map (\<lambda>(n, p). (n, data p)) ps"

fun sequence_result :: "'a result list \<Rightarrow> 'a list result" where
  "sequence_result [] = Inr []"
| "sequence_result (r # rs) =
     (case r of
        Inl e \<Rightarrow> Inl e
      | Inr x \<Rightarrow> (case sequence_result rs of Inl e \<Rightarrow> Inl e | Inr xs \<Rightarrow> Inr (x # xs)))"

text \<open>
  \<^verbatim>\<open>self.base_model(input_ids, attention_mask=attention_mask).last_hidden_state\<close> on a batch:
  the hidden states of every example, a tensor of shape \<open>[B, S, H]\<close>.
\<close>

definition base_model_call ::
  "PreTrainedModel \<Rightarrow> int list list \<Rightarrow> int list list \<Rightarrow> real list list list result" where
  "base_model_call base ids_batch mask_batch =
     (if length ids_batch \<noteq> length mask_batch then Inl RuntimeError
      else sequence_result
             (map (\<lambda>(ids, mask).
                     architecture base (base_training base)
                       (parameter_values (base_parameters base)) ids mask)
                  (zip ids_batch mask_batch)))"

section \<open>CustomClassifier\<close>

text \<open>\<^verbatim>\<open>nn.Linear(in_features, out_features)\<close>: a weight of shape \<open>[out, in]\<close> and a bias of
  shape \<open>[out]\<close>. The initial values are drawn at random: \<open>w0\<close> and \<open>b0\<close> are the draw.\<close>

record Linear =
  in_features :: nat
  out_features :: nat
  weight :: Parameter
  bias :: Parameter

definition Linear_init :: "nat \<Rightarrow> nat \<Rightarrow> (nat \<Rightarrow> nat \<Rightarrow> real) \<Rightarrow> (nat \<Rightarrow> real) \<Rightarrow> Linear" where
  "Linear_init n_in n_out w0 b0 =
     \<lparr>in_features = n_in, out_features = n_out,
      weight = new_parameter (Mat (map (\<lambda>i. map (w0 i) [0..<n_in]) [0..<n_out])),
      bias = new_parameter (Vec (map b0 [0..<n_out]))\<rparr>"

text \<open>\<^verbatim>\<open>nn.Sequential(nn.Dropout(0.1), nn.Linear(hidden_size, num_labels))\<close>: module 0 is the
  dropout (its probability), module 1 the linear layer.\<close>

record Sequential =
  dropout_p :: real
  linear :: Linear

text \<open>
  \<^verbatim>\<open>CustomClassifier\<close>. \<open>training\<close> is the mode flag that \<^verbatim>\<open>model.train()\<close> and \<^verbatim>\<open>model.eval()\<close>
  set on the module and on its submodules; a new module is in training mode.
\<close>

record CustomClassifier =
  base_model :: PreTrainedModel
  classifier :: Sequential
  training :: bool

definition CustomClassifier_init ::
  "PreTrainedModel \<Rightarrow> nat \<Rightarrow> (nat \<Rightarrow> nat \<Rightarrow> real) \<Rightarrow> (nat \<Rightarrow> real) \<Rightarrow> CustomClassifier" where
  "CustomClassifier_init base num_labels w0 b0 =
     \<lparr>base_model = base,
      classifier = \<lparr>dropout_p = 1 / 10,
                    linear = Linear_init (hidden_size base) num_labels w0 b0\<rparr>,
      training = True\<rparr>"

text \<open>\<^verbatim>\<open>num_labels = 2\<close>.\<close>

definition num_labels :: nat where
  "num_labels = 2"

text \<open>
  \<^verbatim>\<open>last_hidden_state[:, 0, :]\<close>: the hidden state of the first token of every example;
  IndexError when the sequence dimension is empty.
\<close>

definition select_first :: "real list list list \<Rightarrow> real list list result" where
  "select_first last_hidden_state =
     (if [] \<in> set last_hidden_state then Inl IndexError
      else Inr (map (\<lambda>h. h ! 0) last_hidden_state))"

text \<open>
  \<^verbatim>\<open>nn.Dropout(p)\<close> on a tensor of shape \<open>[B, H]\<close>: the identity in evaluation mode; in training
  mode entry \<open>(i, j)\<close> is kept and scaled by \<open>1 / (1 - p)\<close> when the random draw \<open>keep i j\<close>
  holds, and zeroed otherwise.
\<close>

definition dropout :: "bool \<Rightarrow> real \<Rightarrow> (nat \<Rightarrow> nat \<Rightarrow> bool) \<Rightarrow> real list list \<Rightarrow> real list list" where
  "dropout train p keep x =
     (if train
      then map (\<lambda>(i, row). map (\<lambda>(j, v). if keep i j then v / (1 - p) else 0) (enumerate 0 row))
               (enumerate 0 x)
      else x)"

text \<open>
  \<^verbatim>\<open>nn.Linear\<close> applied to a tensor of shape \<open>[B, in]\<close>: output \<open>o\<close> of a row \<open>x\<close> is
  \<open>\<Sum>k. x[k] * W[o][k] + b[o]\<close>; RuntimeError when the shapes do not fit.
\<close>

definition dot :: "real list \<Rightarrow> real list \<Rightarrow> real" where
  "dot u v = sum_list (map (\<lambda>(a, b). a * b) (zip u v))"

definition Linear_forward :: "Linear \<Rightarrow> real list list \<Rightarrow> real list list result" where
  "Linear_forward lin x =
     (case data (weight lin) of
        Vec _ \<Rightarrow> Inl RuntimeError
      | Mat W \<Rightarrow>
          (case data (bias lin) of
             Mat _ \<Rightarrow> Inl RuntimeError
           | Vec b \<Rightarrow>
               if (\<exists>xr \<in> set x. \<exists>wr \<in> set W. length xr \<noteq> length wr) then Inl RuntimeError
               else if length b \<noteq> length W then Inl RuntimeError
               else Inr (map (\<lambda>xr. map (\<lambda>(wr, bo). dot xr wr + bo) (zip W b)) x)))"

definition Sequential_forward ::
  "Sequential \<Rightarrow> bool \<Rightarrow> (nat \<Rightarrow> nat \<Rightarrow> bool) \<Rightarrow> real list list \<Rightarrow> real list list result" where
  "Sequential_forward seq train keep x =
     Linear_forward (linear seq) (dropout train (dropout_p seq) keep x)"

text \<open>\<^verbatim>\<open>CustomClassifier.forward\<close>; \<open>keep\<close> is the random draw of the dropout.\<close>

definition CustomClassifier_forward ::
  "CustomClassifier \<Rightarrow> (nat \<Rightarrow> nat \<Rightarrow> bool) \<Rightarrow> int list list \<Rightarrow> int list list \<Rightarrow>
   real list list result" where
  "CustomClassifier_forward self keep input_ids attention_mask =
     (case base_model_call (base_model self) input_ids attention_mask of
        Inl e \<Rightarrow> Inl e
      | Inr last_hidden_state \<Rightarrow>
          (case select_first last_hidden_state of
             Inl e \<Rightarrow> Inl e
           | Inr cls_token_state \<Rightarrow>
               Sequential_forward (classifier self) (training self) keep cls_token_state))"

text \<open>
  The parameters in the autograd graph of the logits that \<^verbatim>\<open>forward\<close> returns outside
  \<^verbatim>\<open>torch.no_grad()\<close>. Two steps of \<^verbatim>\<open>forward\<close> read parameters: the call of the base model,
  whose output goes on to the classifier undetached, and the linear layer of the classifier
  (module 1 of the \<^verbatim>\<open>Sequential\<close>); the selection of the first position and the dropout
  read none.
\<close>

definition CustomClassifier_forward_graph :: "CustomClassifier \<Rightarrow> string list" where
  "CustomClassifier_forward_graph self =
     map (\<lambda>n. ''base_model.'' @ n) (graph_parameters (base_model self))
     @ [''classifier.1.weight'', ''classifier.1.bias'']"

text \<open>
  The named parameters of the module tree, base model first, and the same traversal as an
  update in place: \<open>map_parameters f\<close> replaces every parameter \<open>p\<close> of name \<open>n\<close> by \<open>f n p\<close>.
\<close>

definition named_parameters :: "CustomClassifier \<Rightarrow> (string \<times> Parameter) list" where
  "named_parameters self =
     map (\<lambda>(n, p). (''base_model.'' @ n, p)) (base_parameters (base_model self))
     @ [(''classifier.1.weight'', weight (linear (classifier self))),
        (''classifier.1.bias'', bias (linear (classifier self)))]"

definition map_parameters ::
  "(string \<Rightarrow> Parameter \<Rightarrow> Parameter) \<Rightarrow> CustomClassifier \<Rightarrow> CustomClassifier" where
  "map_parameters f self =
     self\<lparr>base_model := (base_model self)
             \<lparr>base_parameters :=
                map (\<lambda>(n, p). (n, f (''base_model.'' @ n) p)) (base_parameters (base_model self))\<rparr>,
          classifier := (classifier self)
             \<lparr>linear := (linear (classifier self))
                \<lparr>weight := f ''classifier.1.weight'' (weight (linear (classifier self))),
                 bias := f ''classifier.1.bias'' (bias (linear (classifier self)))\<rparr>\<rparr>\<rparr>"

text \<open>\<^verbatim>\<open>model.state_dict()\<close>: the values of all parameters under their names.\<close>

definition state_dict :: "CustomClassifier \<Rightarrow> (string \<times> tensor) list" where
  "state_dict self = parameter_values (named_parameters self)"

text \<open>\<^verbatim>\<open>model.train()\<close> and \<^verbatim>\<open>model.eval()\<close>.\<close>

definition set_mode :: "bool \<Rightarrow> CustomClassifier \<Rightarrow> CustomClassifier" where
  "set_mode mode self =
     self\<lparr>training := mode, base_model := (base_model self)\<lparr>base_training := mode\<rparr>\<rparr>"

section \<open>DataLoader\<close>

record DataLoader =
  dataset :: GlueDataset
  batch_size :: nat
  shuffle :: bool

text \<open>
  \<^verbatim>\<open>DataLoader(dataset, batch_size=..., shuffle=...)\<close>. The constructor raises ValueError on a
  batch size that is not positive, and, when it shuffles, on an empty dataset (the random
  sampler it builds needs a positive number of samples).
\<close>

definition DataLoader_init :: "GlueDataset \<Rightarrow> nat \<Rightarrow> bool \<Rightarrow> DataLoader result" where
  "DataLoader_init ds bs shuf =
     (if bs = 0 then Inl ValueError
      else if shuf \<and> GlueDataset_len ds = 0 then Inl ValueError
      else Inr \<lparr>dataset = ds, batch_size = bs, shuffle = shuf\<rparr>)"

text \<open>The collated batch: its three keys.\<close>

record Batch =
  batch_input_ids :: "int list list"
  batch_attention_mask :: "int list list"
  batch_labels :: "int list"

text \<open>
  The batch sampler cuts the index order into groups of \<open>batch_size\<close>, the last one possibly
  shorter (\<^verbatim>\<open>drop_last=False\<close>). (A loader with batch size 0 cannot be built.)
\<close>

function chunks :: "nat \<Rightarrow> 'a list \<Rightarrow> 'a list list" where
  "chunks n xs = (if n = 0 \<or> xs = [] then [] else take n xs # chunks n (drop n xs))"
  by pat_completeness auto
termination
  by (relation "measure (\<lambda>(n, xs). length xs)") auto

text \<open>
  The default collate function stacks the tensors of the items, which must have one shape:
  RuntimeError otherwise.
\<close>

definition default_collate :: "Item list \<Rightarrow> Batch result" where
  "default_collate items =
     (if (\<exists>a \<in> set items. \<exists>b \<in> set items.
            length (item_input_ids a) \<noteq> length (item_input_ids b)
            \<or> length (item_attention_mask a) \<noteq> length (item_attention_mask b))
      then Inl RuntimeError
      else Inr \<lparr>batch_input_ids = map item_input_ids items,
                batch_attention_mask = map item_attention_mask items,
                batch_labels = map item_labels items\<rparr>)"

definition fetch :: "GlueDataset \<Rightarrow> nat list \<Rightarrow> Batch result" where
  "fetch ds idxs =
     (case sequence_result (map (\<lambda>i. GlueDataset_getitem ds (int i)) idxs) of
        Inl e \<Rightarrow> Inl e
      | Inr items \<Rightarrow> default_collate items)"

section \<open>Library functions of the training run\<close>

text \<open>
  The random draws and the numerical library functions that the loops call. None of them is
  part of the repository; the loops are modelled over any such functions.
  \<^item> \<open>randperm k n\<close>: the index order that the shuffling sampler draws at draw number \<open>k\<close>;
  \<^item> \<open>bernoulli k\<close>: the dropout draw number \<open>k\<close>;
  \<^item> \<open>cross_entropy logits labels\<close>: the loss, or a failure;
  \<^item> \<open>autograd values batch keep n t\<close>: the gradient of that loss, at the parameter values
    \<open>values\<close> and the dropout draw \<open>keep\<close>, with respect to the parameter of name \<open>n\<close>,
    whose value is \<open>t\<close>;
  \<^item> \<open>adamw_init\<close>, \<open>adamw_update lr s p g\<close>: the initial per-parameter state of AdamW, and
    its update of a parameter value \<open>p\<close> with gradient \<open>g\<close>.
\<close>

record 's Library =
  randperm :: "nat \<Rightarrow> nat \<Rightarrow> nat list"
  bernoulli :: "nat \<Rightarrow> nat \<Rightarrow> nat \<Rightarrow> bool"
  cross_entropy :: "real list list \<Rightarrow> int list \<Rightarrow> real result"
  autograd ::
    "(string \<times> tensor) list \<Rightarrow> Batch \<Rightarrow> (nat \<Rightarrow> nat \<Rightarrow> bool) \<Rightarrow> string \<Rightarrow> tensor \<Rightarrow> tensor"
  adamw_init :: 's
  adamw_update :: "real \<Rightarrow> 's \<Rightarrow> tensor \<Rightarrow> tensor \<Rightarrow> tensor \<times> 's"

section \<open>Optimizer and training loop\<close>

text \<open>
  \<^verbatim>\<open>optimizer = AdamW(model.parameters(), lr=5e-5)\<close>: the optimizer refers to the parameters it
  was given (here by name) and keeps a state for each.
\<close>

record 's AdamW =
  param_groups :: "string list"
  lr :: real
  state :: "string \<Rightarrow> 's"

definition AdamW_init :: "'s Library \<Rightarrow> (string \<times> Parameter) list \<Rightarrow> real \<Rightarrow> 's AdamW" where
  "AdamW_init lib params rate =
     \<lparr>param_groups = map fst params, lr = rate, state = (\<lambda>n. adamw_init lib)\<rparr>"

text \<open>
  The history of the training cell: one entry for each statement it executes, in the order
  in which it executes them.
\<close>

datatype event =
    ModelTrain
  | ZeroGrad
  | Forward "int list list" "int list list"
  | CrossEntropy "int list"
  | Backward
  | OptimizerStep
  | EpochCompleted nat

text \<open>
  The state of the run: the model, the optimizer, the number of random draws made so far,
  and the history so far.
\<close>

record 's State =
  model :: CustomClassifier
  optimizer :: "'s AdamW"
  draws :: nat
  trace :: "event list"

text \<open>
  \<^verbatim>\<open>optimizer.zero_grad()\<close> clears the gradient of every parameter of the optimizer (it sets
  \<^verbatim>\<open>.grad\<close> to \<^verbatim>\<open>None\<close>).
\<close>

definition zero_grad :: "'s AdamW \<Rightarrow> CustomClassifier \<Rightarrow> CustomClassifier" where
  "zero_grad opt m =
     map_parameters (\<lambda>n p. if n \<in> set (param_groups opt) then p\<lparr>grad := None\<rparr> else p) m"

text \<open>The sum of two tensors of one shape (left unspecified on different shapes).\<close>

fun tensor_add :: "tensor \<Rightarrow> tensor \<Rightarrow> tensor" where
  "tensor_add (Vec a) (Vec b) = Vec (map (\<lambda>(x, y). x + y) (zip a b))"
| "tensor_add (Mat a) (Mat b) =
     Mat (map (\<lambda>(r, s). map (\<lambda>(x, y). x + y) (zip r s)) (zip a b))"

text \<open>
  \<^verbatim>\<open>loss.backward()\<close> adds the gradient of the loss to \<^verbatim>\<open>.grad\<close> of every parameter that is in
  the graph of the loss and requires gradients; it leaves every other parameter as it is.
  \<open>graph\<close> is the graph of the logits from which the loss was computed.
\<close>

definition backward ::
  "'s Library \<Rightarrow> string list \<Rightarrow> Batch \<Rightarrow> (nat \<Rightarrow> nat \<Rightarrow> bool) \<Rightarrow> CustomClassifier \<Rightarrow>
   CustomClassifier" where
  "backward lib graph batch keep m =
     map_parameters
       (\<lambda>n p. if n \<in> set graph \<and> requires_grad p
              then p\<lparr>grad := Some (case grad p of
                                     None \<Rightarrow> autograd lib (state_dict m) batch keep n (data p)
                                   | Some old \<Rightarrow>
                                       tensor_add old
                                         (autograd lib (state_dict m) batch keep n (data p)))\<rparr>
              else p) m"

text \<open>
  \<^verbatim>\<open>optimizer.step()\<close> updates every parameter of the optimizer that has a gradient, and the
  optimizer's state for it.
\<close>

definition step_parameters :: "'s Library \<Rightarrow> 's AdamW \<Rightarrow> CustomClassifier \<Rightarrow> CustomClassifier" where
  "step_parameters lib opt m =
     map_parameters
       (\<lambda>n p. if n \<in> set (param_groups opt)
              then (case grad p of
                      None \<Rightarrow> p
                    | Some g \<Rightarrow> p\<lparr>data := fst (adamw_update lib (lr opt) (state opt n) (data p) g)\<rparr>)
              else p) m"

definition step_state :: "'s Library \<Rightarrow> 's AdamW \<Rightarrow> CustomClassifier \<Rightarrow> 's AdamW" where
  "step_state lib opt m =
     opt\<lparr>state := (\<lambda>n.
        if n \<in> set (param_groups opt)
        then (case map_of (named_parameters m) n of
                None \<Rightarrow> state opt n
              | Some p \<Rightarrow>
                  (case grad p of
                     None \<Rightarrow> state opt n
                   | Some g \<Rightarrow> snd (adamw_update lib (lr opt) (state opt n) (data p) g)))
        else state opt n)\<rparr>"

text \<open>
  A call of the model inside a loop: the dropout draw is the next random draw, consumed in
  training mode only.
\<close>

definition model_call ::
  "'s Library \<Rightarrow> 's State \<Rightarrow> int list list \<Rightarrow> int list list \<Rightarrow>
   real list list result \<times> 's State" where
  "model_call lib st input_ids attention_mask =
     (CustomClassifier_forward (model st) (bernoulli lib (draws st)) input_ids attention_mask,
      if training (model st) then st\<lparr>draws := draws st + 1\<rparr> else st)"

text \<open>The body of the inner loop of the training cell, for one batch.\<close>

definition train_step :: "'s Library \<Rightarrow> 's State \<Rightarrow> Batch \<Rightarrow> unit result \<times> 's State" where
  "train_step lib st batch =
     (let st1 = st\<lparr>model := zero_grad (optimizer st) (model st), trace := trace st @ [ZeroGrad]\<rparr>;
          keep = bernoulli lib (draws st1);
          graph = CustomClassifier_forward_graph (model st1)
      in case model_call lib st1 (batch_input_ids batch) (batch_attention_mask batch) of
           (Inl e, st2) \<Rightarrow> (Inl e, st2)
         | (Inr logits, st2) \<Rightarrow>
             (let st3 = st2\<lparr>trace := trace st2
                                @ [Forward (batch_input_ids batch) (batch_attention_mask batch)]\<rparr>
              in case cross_entropy lib logits (batch_labels batch) of
                   Inl e \<Rightarrow> (Inl e, st3)
                 | Inr loss \<Rightarrow>
                     (let st4 = st3\<lparr>trace := trace st3 @ [CrossEntropy (batch_labels batch)]\<rparr>;
                          st5 = st4\<lparr>model := backward lib graph batch keep (model st4),
                                    trace := trace st4 @ [Backward]\<rparr>;
                          st6 = st5\<lparr>model := step_parameters lib (optimizer st5) (model st5),
                                    optimizer := step_state lib (optimizer st5) (model st5),
                                    trace := trace st5 @ [OptimizerStep]\<rparr>
                      in (Inr (), st6))))"

text \<open>\<^verbatim>\<open>for batch in train_loader\<close>: the batches are fetched one at a time.\<close>

fun train_batches ::
  "'s Library \<Rightarrow> GlueDataset \<Rightarrow> nat list list \<Rightarrow> 's State \<Rightarrow> unit result \<times> 's State" where
  "train_batches lib ds [] st = (Inr (), st)"
| "train_batches lib ds (idxs # rest) st =
     (case fetch ds idxs of
        Inl e \<Rightarrow> (Inl e, st)
      | Inr batch \<Rightarrow>
          (case train_step lib st batch of
             (Inl e, st') \<Rightarrow> (Inl e, st')
           | (Inr u, st') \<Rightarrow> train_batches lib ds rest st'))"

text \<open>
  The index order of one pass over a loader: a fresh random order when it shuffles, the
  dataset order otherwise.
\<close>

definition sampler :: "'s Library \<Rightarrow> DataLoader \<Rightarrow> 's State \<Rightarrow> nat list \<times> 's State" where
  "sampler lib loader st =
     (if shuffle loader
      then (randperm lib (draws st) (GlueDataset_len (dataset loader)), st\<lparr>draws := draws st + 1\<rparr>)
      else ([0..<GlueDataset_len (dataset loader)], st))"

text \<open>The body of the outer loop, for one epoch.\<close>

definition train_epoch ::
  "'s Library \<Rightarrow> DataLoader \<Rightarrow> 's State \<Rightarrow> nat \<Rightarrow> unit result \<times> 's State" where
  "train_epoch lib train_loader st epoch =
     (let st1 = st\<lparr>model := set_mode True (model st), trace := trace st @ [ModelTrain]\<rparr>;
          (order, st2) = sampler lib train_loader st1
      in case train_batches lib (dataset train_loader)
                (chunks (batch_size train_loader) order) st2 of
           (Inl e, st3) \<Rightarrow> (Inl e, st3)
         | (Inr u, st3) \<Rightarrow> (Inr (), st3\<lparr>trace := trace st3 @ [EpochCompleted (epoch + 1)]\<rparr>))"

fun train_epochs ::
  "'s Library \<Rightarrow> DataLoader \<Rightarrow> nat list \<Rightarrow> 's State \<Rightarrow> unit result \<times> 's State" where
  "train_epochs lib train_loader [] st = (Inr (), st)"
| "train_epochs lib train_loader (epoch # rest) st =
     (case train_epoch lib train_loader st epoch of
        (Inl e, st') \<Rightarrow> (Inl e, st')
      | (Inr u, st') \<Rightarrow> train_epochs lib train_loader rest st')"

text \<open>\<^verbatim>\<open>num_epochs = 3\<close> and \<^verbatim>\<open>for epoch in range(num_epochs)\<close>.\<close>

definition num_epochs :: nat where
  "num_epochs = 3"

definition training_loop :: "'s Library \<Rightarrow> DataLoader \<Rightarrow> 's State \<Rightarrow> unit result \<times> 's State" where
  "training_loop lib train_loader st = train_epochs lib train_loader [0..<num_epochs] st"

section \<open>Evaluation loop\<close>

text \<open>
  \<^verbatim>\<open>torch.argmax(logits, dim=-1)\<close>: for every row the first position of its largest entry;
  IndexError on an empty row.
\<close>

fun argmax_from :: "nat \<Rightarrow> real \<Rightarrow> nat \<Rightarrow> real list \<Rightarrow> nat" where
  "argmax_from best v i [] = best"
| "argmax_from best v i (x # xs) =
     (if v < x then argmax_from i x (i + 1) xs else argmax_from best v (i + 1) xs)"

definition argmax :: "real list list \<Rightarrow> nat list result" where
  "argmax logits =
     (if [] \<in> set logits then Inl IndexError
      else Inr (map (\<lambda>row. argmax_from 0 (row ! 0) 1 (tl row)) logits))"

text \<open>
  \<^verbatim>\<open>torch.sum(predictions == labels).item()\<close> for two vectors of one length; RuntimeError when
  the lengths differ.
\<close>

definition count_equal :: "nat list \<Rightarrow> int list \<Rightarrow> nat result" where
  "count_equal predictions targets =
     (if length predictions \<noteq> length targets then Inl RuntimeError
      else Inr (length (filter (\<lambda>(p, l). int p = l) (zip predictions targets))))"

text \<open>The loop of the evaluation cell; \<open>total_acc\<close> is \<^verbatim>\<open>total_eval_accuracy\<close>.\<close>

fun eval_batches ::
  "'s Library \<Rightarrow> GlueDataset \<Rightarrow> nat list list \<Rightarrow> nat \<Rightarrow> 's State \<Rightarrow> nat result \<times> 's State" where
  "eval_batches lib ds [] total_acc st = (Inr total_acc, st)"
| "eval_batches lib ds (idxs # rest) total_acc st =
     (case fetch ds idxs of
        Inl e \<Rightarrow> (Inl e, st)
      | Inr batch \<Rightarrow>
          (case model_call lib st (batch_input_ids batch) (batch_attention_mask batch) of
             (Inl e, st') \<Rightarrow> (Inl e, st')
           | (Inr logits, st') \<Rightarrow>
               (case argmax logits of
                  Inl e \<Rightarrow> (Inl e, st')
                | Inr predictions \<Rightarrow>
                    (case count_equal predictions (batch_labels batch) of
                       Inl e \<Rightarrow> (Inl e, st')
                     | Inr c \<Rightarrow> eval_batches lib ds rest (total_acc + c) st'))))"

text \<open>
  The evaluation cell: \<^verbatim>\<open>model.eval()\<close>, the loop, and
  \<^verbatim>\<open>avg_accuracy = total_eval_accuracy / len(eval_loader.dataset)\<close>, a true division that
  raises ZeroDivisionError on an empty dataset.
\<close>

definition evaluation :: "'s Library \<Rightarrow> DataLoader \<Rightarrow> 's State \<Rightarrow> real result \<times> 's State" where
  "evaluation lib eval_loader st =
     (let st1 = st\<lparr>model := set_mode False (model st)\<rparr>;
          (order, st2) = sampler lib eval_loader st1
      in case eval_batches lib (dataset eval_loader)
                (chunks (batch_size eval_loader) order) 0 st2 of
           (Inl e, st3) \<Rightarrow> (Inl e, st3)
         | (Inr total_eval_accuracy, st3) \<Rightarrow>
             if GlueDataset_len (dataset eval_loader) = 0 then (Inl ZeroDivisionError, st3)
             else (Inr (real total_eval_accuracy / real (GlueDataset_len (dataset eval_loader))),
                   st3))"

section \<open>Saving the model\<close>

text \<open>
  \<^verbatim>\<open>torch.save(model.state_dict(), "./my_custom_model_falcon.pt")\<close>: the file system maps a path
  to the object stored there.
\<close>

type_synonym files = "string \<rightharpoonup> (string \<times> tensor) list"

definition torch_save :: "(string \<times> tensor) list \<Rightarrow> string \<Rightarrow> files \<Rightarrow> files" where
  "torch_save obj path fs = fs(path \<mapsto> obj)"

definition save_model :: "'s State \<Rightarrow> files \<Rightarrow> files" where
  "save_model st fs = torch_save (state_dict (model st)) ''./my_custom_model_falcon.pt'' fs"

section \<open>The notebook\<close>

text \<open>
  The cells in order: tokenizer and base model, classifier, datasets, loaders, optimizer,
  training, evaluation, saving. A cell that raises ends the run: the run then reports the
  error, and the file system is as it was. A run that completes reports the accuracy and
  the final state. (\<^verbatim>\<open>model.to(device)\<close> moves the tensors and changes no value.)
\<close>

definition initial_state ::
  "'s Library \<Rightarrow> PreTrainedModel \<Rightarrow> (nat \<Rightarrow> nat \<Rightarrow> real) \<Rightarrow> (nat \<Rightarrow> real) \<Rightarrow> 's State" where
  "initial_state lib base w0 b0 =
     (let m = CustomClassifier_init base num_labels w0 b0
      in \<lparr>model = m, optimizer = AdamW_init lib (named_parameters m) (5 / 100000),
          draws = 0, trace = []\<rparr>)"

definition notebook ::
  "'s Library \<Rightarrow> PreTrainedTokenizer \<Rightarrow> PreTrainedModel \<Rightarrow> (nat \<Rightarrow> nat \<Rightarrow> real) \<Rightarrow> (nat \<Rightarrow> real) \<Rightarrow>
   RawDataset \<Rightarrow> RawDataset \<Rightarrow> files \<Rightarrow> (real \<times> 's State) result \<times> files" where
  "notebook lib tok base w0 b0 raw_train raw_validation fs =
     (let tokenizer = set_pad_token_to_eos tok;
          train_dataset = GlueDataset_init tokenizer raw_train default_max_length;
          eval_dataset = GlueDataset_init tokenizer raw_validation default_max_length
      in case DataLoader_init train_dataset 8 True of
           Inl e \<Rightarrow> (Inl e, fs)
         | Inr train_loader \<Rightarrow>
             (case DataLoader_init eval_dataset 8 False of
                Inl e \<Rightarrow> (Inl e, fs)
              | Inr eval_loader \<Rightarrow>
                  (case training_loop lib train_loader (initial_state lib base w0 b0) of
                     (Inl e, st1) \<Rightarrow> (Inl e, fs)
                   | (Inr u, st1) \<Rightarrow>
                       (case evaluation lib eval_loader st1 of
                          (Inl e, st2) \<Rightarrow> (Inl e, fs)
                        | (Inr avg_accuracy, st2) \<Rightarrow>
                            (Inr (avg_accuracy, st2), save_model st2 fs)))))"

section \<open>Shapes and the contract of the base model\<close>

text \<open>
  The head of a classifier with \<open>n\<close> labels has the shapes that \<^verbatim>\<open>nn.Linear(hidden_size, n)\<close>
  creates: a weight of \<open>n\<close> rows of \<open>hidden_size\<close> entries and a bias of \<open>n\<close> entries.
\<close>

definition classifier_shape :: "CustomClassifier \<Rightarrow> nat \<Rightarrow> bool" where
  "classifier_shape m n =
     (case data (weight (linear (classifier m))) of
        Vec _ \<Rightarrow> False
      | Mat W \<Rightarrow>
          (case data (bias (linear (classifier m))) of
             Mat _ \<Rightarrow> False
           | Vec b \<Rightarrow>
               length W = n \<and> length b = n
               \<and> list_all (\<lambda>wr. length wr = hidden_size (base_model m)) W))"

text \<open>
  What the notebook relies on from the base model: on a non-empty token sequence with a mask
  of the same length it returns one hidden vector of \<open>hidden_size\<close> entries per token,
  whatever the mode and the parameter values.
\<close>

definition architecture_ok :: "PreTrainedModel \<Rightarrow> bool" where
  "architecture_ok base =
     (\<forall>mode ps ids mask.
        ids \<noteq> [] \<and> length mask = length ids \<longrightarrow>
        (\<exists>h. architecture base mode ps ids mask = Inr h
             \<and> length h = length ids
             \<and> list_all (\<lambda>v. length v = hidden_size base) h))"

text \<open>A batch of \<open>B\<close> non-empty token sequences, each with a mask of its length.\<close>

definition batch_ok :: "int list list \<Rightarrow> int list list \<Rightarrow> bool" where
  "batch_ok input_ids attention_mask =
     (length input_ids = length attention_mask
      \<and> list_all (\<lambda>(ids, mask). ids \<noteq> [] \<and> length mask = length ids)
           (zip input_ids attention_mask))"

section \<open>The forward pass in the words of the specification\<close>

text \<open>
  The specification describes the forward pass of one example: the hidden state of the
  first token is the pooled representation; dropout acts on it in training mode only; a
  linear map then produces one output per label, output \<open>c\<close> being
  \<open>\<Sum>k. W[c][k] * v[k] + b[c]\<close>.
\<close>

definition spec_dropout :: "bool \<Rightarrow> real \<Rightarrow> (nat \<Rightarrow> bool) \<Rightarrow> real list \<Rightarrow> real list" where
  "spec_dropout train p keep v =
     (if train then map (\<lambda>j. if keep j then v ! j / (1 - p) else 0) [0..<length v] else v)"

definition spec_linear_map :: "real list list \<Rightarrow> real list \<Rightarrow> real list \<Rightarrow> real list" where
  "spec_linear_map W b v =
     map (\<lambda>c. (\<Sum>k<length v. W ! c ! k * v ! k) + b ! c) [0..<length W]"

definition spec_logits ::
  "CustomClassifier \<Rightarrow> (nat \<Rightarrow> bool) \<Rightarrow> real list list \<Rightarrow> real list \<Rightarrow> real list list \<Rightarrow> real list"
  where
  "spec_logits m keep W b hidden =
     spec_linear_map W b
       (spec_dropout (training m) (dropout_p (classifier m)) keep (hidden ! 0))"

section \<open>The evaluation in the words of the specification\<close>

text \<open>The record that the dataset wrapper holds for one labeled example.\<close>

definition row_item :: "PreTrainedTokenizer \<Rightarrow> nat \<Rightarrow> RawRow \<Rightarrow> Item" where
  "row_item tok max_length r =
     (let enc = tokenizer_call tok (sentence1 r) (sentence2 r) max_length
      in \<lparr>item_input_ids = squeeze0 (enc_input_ids enc),
          item_attention_mask = squeeze0 (enc_attention_mask enc),
          item_labels = label r\<rparr>)"

text \<open>
  The arg-max label of a logit vector: the position of a largest logit, and the first such
  position when several logits are equal.
\<close>

definition is_first_max :: "real list \<Rightarrow> nat \<Rightarrow> bool" where
  "is_first_max row p =
     (p < length row
      \<and> list_all (\<lambda>j. row ! j \<le> row ! p) [0..<length row]
      \<and> list_all (\<lambda>j. row ! j < row ! p) [0..<p])"

text \<open>
  An example counts as correct when the logits that the model returns for it, given alone,
  have its ground-truth label as their arg-max label.
\<close>

definition is_correct :: "CustomClassifier \<Rightarrow> Item \<Rightarrow> bool" where
  "is_correct m item =
     (case CustomClassifier_forward m (\<lambda>i j. True)
             [item_input_ids item] [item_attention_mask item] of
        Inl e \<Rightarrow> False
      | Inr logits \<Rightarrow>
          length logits = 1 \<and> 0 \<le> item_labels item
          \<and> is_first_max (logits ! 0) (nat (item_labels item)))"

definition correct_count :: "CustomClassifier \<Rightarrow> Item list \<Rightarrow> nat" where
  "correct_count m items = length (filter (is_correct m) items)"

section \<open>The contracts of the tokenizer, the network and the library\<close>

text \<open>Token ids of a vocabulary of \<open>V\<close> tokens.\<close>

definition in_vocab :: "nat \<Rightarrow> int list \<Rightarrow> bool" where
  "in_vocab V ids = list_all (\<lambda>t. 0 \<le> t \<and> t < int V) ids"

text \<open>A tokenizer of that vocabulary: it encodes every text, and pads, with ids of it.\<close>

definition tokenizer_ok :: "PreTrainedTokenizer \<Rightarrow> nat \<Rightarrow> bool" where
  "tokenizer_ok tok V =
     ((\<forall>text. in_vocab V (encode tok text))
      \<and> 0 \<le> pad_token_id tok \<and> pad_token_id tok < int V)"

text \<open>Two tensors of one shape, and two lists of named tensors with the same names and shapes.\<close>

fun same_shape :: "tensor \<Rightarrow> tensor \<Rightarrow> bool" where
  "same_shape (Vec a) (Vec b) = (length a = length b)"
| "same_shape (Mat a) (Mat b) = (map length a = map length b)"
| "same_shape (Vec a) (Mat b) = False"
| "same_shape (Mat a) (Vec b) = False"

definition shaped_like :: "(string \<times> tensor) list \<Rightarrow> (string \<times> tensor) list \<Rightarrow> bool" where
  "shaped_like ps ps0 = list_all2 (\<lambda>(n, t) (n0, t0). n = n0 \<and> same_shape t t0) ps ps0"

text \<open>
  What the loops rely on from the network of the base model, for a vocabulary of \<open>V\<close> tokens
  and parameters shaped like \<open>ps0\<close> (those of the checkpoint): on a non-empty sequence of
  token ids of the vocabulary, with a mask of the same length, it returns one hidden vector
  of \<open>hidden_size\<close> entries per token, in either mode.
\<close>

definition network_ok :: "nat \<Rightarrow> (string \<times> tensor) list \<Rightarrow> PreTrainedModel \<Rightarrow> bool" where
  "network_ok V ps0 base =
     (\<forall>mode ps ids mask.
        shaped_like ps ps0 \<and> ids \<noteq> [] \<and> in_vocab V ids \<and> length mask = length ids \<longrightarrow>
        (\<exists>h. architecture base mode ps ids mask = Inr h
             \<and> length h = length ids
             \<and> list_all (\<lambda>v. length v = hidden_size base) h))"

text \<open>
  What the training loop relies on from the library, for a classifier with \<open>n\<close> labels:
  the shuffling sampler draws a permutation of the indices; the cross-entropy loss is
  defined on one logit vector of length \<open>n\<close> per label, the labels being classes from \<open>0\<close>
  to \<open>n - 1\<close>; a gradient has the shape of its parameter; and the update of AdamW keeps
  the shape of the parameter.
\<close>

definition library_ok :: "'s Library \<Rightarrow> nat \<Rightarrow> bool" where
  "library_ok lib n =
     ((\<forall>k N. distinct (randperm lib k N) \<and> set (randperm lib k N) = {0..<N})
      \<and> (\<forall>logits targets.
            length logits = length targets
            \<and> list_all (\<lambda>row. length row = n) logits
            \<and> list_all (\<lambda>l. 0 \<le> l \<and> l < int n) targets
            \<longrightarrow> (\<exists>loss. cross_entropy lib logits targets = Inr loss))
      \<and> (\<forall>values batch keep name t. same_shape (autograd lib values batch keep name t) t)
      \<and> (\<forall>rate s p g. same_shape g p \<longrightarrow> same_shape (fst (adamw_update lib rate s p g)) p))"

section \<open>The training run in the words of the specification\<close>

text \<open>The batch that the loader collates from the records at the given indices.\<close>

definition batch_of :: "PreTrainedTokenizer \<Rightarrow> nat \<Rightarrow> RawDataset \<Rightarrow> nat list \<Rightarrow> Batch" where
  "batch_of tok max_length raw idxs =
     \<lparr>batch_input_ids = map (\<lambda>i. item_input_ids (row_item tok max_length (raw ! i))) idxs,
      batch_attention_mask = map (\<lambda>i. item_attention_mask (row_item tok max_length (raw ! i))) idxs,
      batch_labels = map (\<lambda>i. item_labels (row_item tok max_length (raw ! i))) idxs\<rparr>"

text \<open>
  The sequence of the specification for one batch: clear the gradients, compute the logits,
  compute the cross-entropy loss against the labels, propagate the gradients backward,
  apply one optimizer step. An epoch switches to training mode, runs that sequence for each
  of its batches, and reports its end.
\<close>

definition batch_events :: "Batch \<Rightarrow> event list" where
  "batch_events batch =
     [ZeroGrad,
      Forward (batch_input_ids batch) (batch_attention_mask batch),
      CrossEntropy (batch_labels batch),
      Backward,
      OptimizerStep]"

definition epoch_events :: "Batch list \<Rightarrow> nat \<Rightarrow> event list" where
  "epoch_events batches epoch =
     ModelTrain # concat (map batch_events batches) @ [EpochCompleted (epoch + 1)]"

text \<open>
  What that sequence does to one parameter \<open>p\<close> of name \<open>n\<close>, whose state in the optimizer is
  \<open>s\<close>, when the parameters have the values \<open>values\<close>. A parameter in the graph of the loss,
  of the base model or of the head, ends with the gradient of this batch alone (the
  gradients of earlier batches were cleared) and with the value that one step of AdamW, at
  learning rate \<open>rate\<close>, makes of its value and that gradient. Every other parameter keeps
  its value and ends without a gradient.
\<close>

definition spec_parameter ::
  "'s Library \<Rightarrow> real \<Rightarrow> string list \<Rightarrow> (string \<times> tensor) list \<Rightarrow> Batch \<Rightarrow> (nat \<Rightarrow> nat \<Rightarrow> bool) \<Rightarrow>
   string \<Rightarrow> Parameter \<Rightarrow> 's \<Rightarrow> Parameter \<times> 's" where
  "spec_parameter lib rate graph values batch keep n p s =
     (if n \<in> set graph
      then (let g = autograd lib values batch keep n (data p)
            in (p\<lparr>data := fst (adamw_update lib rate s (data p) g), grad := Some g\<rparr>,
                snd (adamw_update lib rate s (data p) g)))
      else (p\<lparr>grad := None\<rparr>, s))"

text \<open>
  The parameters of a run as a table: name, parameter, and the optimizer's state for it;
  and what the sequence for one batch, under the dropout draw \<open>keep\<close>, does to the table.
\<close>

type_synonym 's table = "(string \<times> Parameter \<times> 's) list"

definition table_of :: "'s State \<Rightarrow> 's table" where
  "table_of st = map (\<lambda>(n, p). (n, p, state (optimizer st) n)) (named_parameters (model st))"

definition table_values :: "'s table \<Rightarrow> (string \<times> tensor) list" where
  "table_values tb = map (\<lambda>(n, p, s). (n, data p)) tb"

definition spec_batch ::
  "'s Library \<Rightarrow> real \<Rightarrow> string list \<Rightarrow> 's table \<Rightarrow> Batch \<times> (nat \<Rightarrow> nat \<Rightarrow> bool) \<Rightarrow> 's table" where
  "spec_batch lib rate graph tb step =
     map (\<lambda>(n, p, s).
            (n, spec_parameter lib rate graph (table_values tb) (fst step) (snd step) n p s))
         tb"

text \<open>
  The invariant of the training loop: the optimizer holds every parameter of the model, the
  names are distinct, no parameter is frozen, the head and the parameters of the base model
  keep their shapes, the network keeps its contract, and the graph of the forward pass and
  the learning rate are those of the start.
\<close>

definition run_invariant ::
  "nat \<Rightarrow> nat \<Rightarrow> (string \<times> tensor) list \<Rightarrow> string list \<Rightarrow> string list \<Rightarrow> real \<Rightarrow> 's State \<Rightarrow> bool"
  where
  "run_invariant n V ps0 names graph rate st =
     (param_groups (optimizer st) = names
      \<and> lr (optimizer st) = rate
      \<and> map fst (named_parameters (model st)) = names
      \<and> distinct names
      \<and> list_all (\<lambda>(name, p). requires_grad p) (named_parameters (model st))
      \<and> CustomClassifier_forward_graph (model st) = graph
      \<and> classifier_shape (model st) n
      \<and> shaped_like (parameter_values (base_parameters (base_model (model st)))) ps0
      \<and> network_ok V ps0 (base_model (model st)))"

section \<open>The saved artifact in the words of the specification\<close>

text \<open>
  The parameter state of the classification head alone: the weight and the bias of the
  linear projection added on top of the base model.
\<close>

definition head_state_dict :: "CustomClassifier \<Rightarrow> (string \<times> tensor) list" where
  "head_state_dict m =
     [(''classifier.1.weight'', data (weight (linear (classifier m)))),
      (''classifier.1.bias'', data (bias (linear (classifier m))))]"

section \<open>Concrete inputs\<close>

text \<open>Two labeled examples and a tokenizer that reads one id per character.\<close>

definition example_tokenizer :: PreTrainedTokenizer where
  "example_tokenizer = \<lparr>encode = map of_char, eos_token_id = 0, pad_token_id = 0\<rparr>"

definition example_raw :: RawDataset where
  "example_raw =
     [\<lparr>sentence1 = ''abc'', sentence2 = ''abcd'', label = 1\<rparr>,
      \<lparr>sentence1 = ''a'', sentence2 = ''b'', label = 0\<rparr>]"

text \<open>Three labeled examples to evaluate on.\<close>

definition example_validation :: RawDataset where
  "example_validation =
     [\<lparr>sentence1 = ''abc'', sentence2 = ''abcd'', label = 1\<rparr>,
      \<lparr>sentence1 = ''a'', sentence2 = ''b'', label = 0\<rparr>,
      \<lparr>sentence1 = ''ab'', sentence2 = ''a'', label = 1\<rparr>]"

text \<open>
  A base model with hidden size 2 and one parameter \<open>w\<close>, which its network reads: the
  hidden state for a token \<open>t\<close> is \<open>[t * w[0], 1]\<close> (with 1 for \<open>w[0]\<close> should the parameter
  be missing), so \<open>[t, 1]\<close> at the loaded value \<open>[1, 2]\<close> of \<open>w\<close>. And the classifier built
  on it, with weight \<open>[[0, 1], [1, 2]]\<close> and bias \<open>[0, 1]\<close>.
\<close>

definition example_network ::
  "bool \<Rightarrow> (string \<times> tensor) list \<Rightarrow> int list \<Rightarrow> int list \<Rightarrow> real list list result" where
  "example_network mode ps ids attention =
     (if ids = [] \<or> length attention \<noteq> length ids then Inl RuntimeError
      else Inr (map (\<lambda>t. [real_of_int t
                              * (case map_of ps ''w'' of Some (Vec (a # r)) \<Rightarrow> a | _ \<Rightarrow> 1),
                            1]) ids))"

definition example_base :: PreTrainedModel where
  "example_base = from_pretrained 2 [(''w'', Vec [1, 2])] example_network [''w'']"

definition example_model :: CustomClassifier where
  "example_model = CustomClassifier_init example_base num_labels (\<lambda>i j. real (i + j)) real"

text \<open>
  Library functions for a run: the shuffling sampler draws the dataset order, dropout keeps
  every entry, the loss is 0, the gradient of a parameter is its own value, and the
  optimizer's update adds the gradient to the parameter.
\<close>

definition example_lib :: "unit Library" where
  "example_lib =
     \<lparr>randperm = (\<lambda>k n. [0..<n]),
      bernoulli = (\<lambda>k i j. True),
      cross_entropy = (\<lambda>logits targets. Inr 0),
      autograd = (\<lambda>values batch keep n t. t),
      adamw_init = (),
      adamw_update = (\<lambda>rate s p g. (tensor_add p g, s))\<rparr>"

definition example_state :: "unit State" where
  "example_state = initial_state example_lib example_base (\<lambda>i j. real (i + j)) real"

text \<open>
  A whole run of the notebook on these inputs, the two labeled examples serving as training
  and as validation split, on an empty file system.
\<close>

definition example_run :: "(real \<times> unit State) result \<times> files" where
  "example_run =
     notebook example_lib example_tokenizer example_base (\<lambda>i j. real (i + j)) real
       example_raw example_raw Map.empty"

section \<open>Properties of the dataset wrapper\<close>

declare truncate_longest_first.simps [simp del]

lemma truncate_longest_first_length:
  "truncate_longest_first a b n = (a', b') \<Longrightarrow> length a' + length b' \<le> n"
proof (induction a b n arbitrary: a' b' rule: truncate_longest_first.induct)
  case (1 ids pair_ids max_length)
  note unfold = truncate_longest_first.simps [of ids pair_ids max_length]
  show ?case
  proof (cases "length ids + length pair_ids \<le> max_length")
    case True
    with "1.prems" unfold show ?thesis by simp
  next
    case False
    show ?thesis
    proof (cases "length ids > length pair_ids")
      case True
      with False "1.prems" unfold
      have "truncate_longest_first (butlast ids) pair_ids max_length = (a', b')"
        by simp
      with False True "1.IH"(1) show ?thesis by blast
    next
      case nlonger: False
      with False "1.prems" unfold
      have "truncate_longest_first ids (butlast pair_ids) max_length = (a', b')"
        by simp
      with False nlonger "1.IH"(2) show ?thesis by blast
    qed
  qed
qed

lemma truncate_longest_first_set:
  "truncate_longest_first a b n = (a', b') \<Longrightarrow> set a' \<subseteq> set a \<and> set b' \<subseteq> set b"
proof (induction a b n arbitrary: a' b' rule: truncate_longest_first.induct)
  case (1 ids pair_ids max_length)
  note unfold = truncate_longest_first.simps [of ids pair_ids max_length]
  show ?case
  proof (cases "length ids + length pair_ids \<le> max_length")
    case True
    with "1.prems" unfold show ?thesis by simp
  next
    case False
    show ?thesis
    proof (cases "length ids > length pair_ids")
      case True
      with False "1.prems" unfold
      have "truncate_longest_first (butlast ids) pair_ids max_length = (a', b')"
        by simp
      with False True "1.IH"(1) have "set a' \<subseteq> set (butlast ids) \<and> set b' \<subseteq> set pair_ids"
        by blast
      then show ?thesis
        by (meson in_set_butlastD subset_iff)
    next
      case nlonger: False
      with False "1.prems" unfold
      have "truncate_longest_first ids (butlast pair_ids) max_length = (a', b')"
        by simp
      with False nlonger "1.IH"(2) have "set a' \<subseteq> set ids \<and> set b' \<subseteq> set (butlast pair_ids)"
        by blast
      then show ?thesis
        by (meson in_set_butlastD subset_iff)
    qed
  qed
qed

lemma pad_to_max_length_length:
  assumes "length ids \<le> n"
  shows "length (fst (pad_to_max_length p n ids)) = n"
    and "length (snd (pad_to_max_length p n ids)) = n"
  using assms by (simp_all add: pad_to_max_length_def)

lemma tokenizer_call_shape:
  "\<exists>ids mask. tokenizer_call tok s1 s2 n = \<lparr>enc_input_ids = [ids], enc_attention_mask = [mask]\<rparr>
     \<and> length ids = n \<and> length mask = n"
proof -
  obtain a b where ab: "truncate_longest_first (encode tok s1) (encode tok s2) n = (a, b)"
    by (cases "truncate_longest_first (encode tok s1) (encode tok s2) n")
  have le: "length (a @ b) \<le> n"
    using truncate_longest_first_length [OF ab] by simp
  obtain p m where pm: "pad_to_max_length (pad_token_id tok) n (a @ b) = (p, m)"
    by (cases "pad_to_max_length (pad_token_id tok) n (a @ b)")
  have "length p = n" "length m = n"
    using pad_to_max_length_length [OF le, of "pad_token_id tok"] pm by simp_all
  moreover have "tokenizer_call tok s1 s2 n = \<lparr>enc_input_ids = [p], enc_attention_mask = [m]\<rparr>"
    by (simp add: tokenizer_call_def ab pm)
  ultimately show ?thesis by blast
qed

lemma foldl_GlueDataset_append:
  "foldl (GlueDataset_append tok n) acc ts =
     \<lparr>inputs = inputs acc @ map (\<lambda>(s1, s2, l). tokenizer_call tok s1 s2 n) ts,
      labels = labels acc @ map (\<lambda>(s1, s2, l). l) ts\<rparr>"
proof (induction ts arbitrary: acc)
  case Nil
  show ?case by simp
next
  case (Cons t ts)
  obtain s1 s2 l where t: "t = (s1, s2, l)"
    by (cases t)
  have step: "GlueDataset_append tok n acc (s1, s2, l) =
      acc\<lparr>inputs := inputs acc @ [tokenizer_call tok s1 s2 n], labels := labels acc @ [l]\<rparr>"
    by (simp add: GlueDataset_append_def)
  have "foldl (GlueDataset_append tok n) acc (t # ts) =
      foldl (GlueDataset_append tok n) (GlueDataset_append tok n acc t) ts"
    by simp
  also have "\<dots> =
      \<lparr>inputs = inputs (GlueDataset_append tok n acc t)
                 @ map (\<lambda>(s1, s2, l). tokenizer_call tok s1 s2 n) ts,
       labels = labels (GlueDataset_append tok n acc t) @ map (\<lambda>(s1, s2, l). l) ts\<rparr>"
    by (rule Cons.IH)
  also have "\<dots> =
      \<lparr>inputs = inputs acc @ map (\<lambda>(s1, s2, l). tokenizer_call tok s1 s2 n) (t # ts),
       labels = labels acc @ map (\<lambda>(s1, s2, l). l) (t # ts)\<rparr>"
    by (simp add: step t)
  finally show ?case .
qed

lemma zip_columns:
  "zip (column sentence1 raw) (zip (column sentence2 raw) (column label raw)) =
     map (\<lambda>r. (sentence1 r, sentence2 r, label r)) raw"
  by (induction raw) (simp_all add: column_def)

lemma GlueDataset_init_inputs:
  "inputs (GlueDataset_init tok raw n) =
     map (\<lambda>r. tokenizer_call tok (sentence1 r) (sentence2 r) n) raw"
  by (simp add: GlueDataset_init_def foldl_GlueDataset_append zip_columns comp_def)

lemma GlueDataset_init_labels:
  "labels (GlueDataset_init tok raw n) = map label raw"
  by (simp add: GlueDataset_init_def foldl_GlueDataset_append zip_columns comp_def)

lemma GlueDataset_init_len:
  "GlueDataset_len (GlueDataset_init tok raw n) = length raw"
  by (simp add: GlueDataset_len_def GlueDataset_init_inputs)

lemma py_index_nat:
  "i < length xs \<Longrightarrow> py_index xs (int i) = Inr (xs ! i)"
  by (simp add: py_index_def)

lemma GlueDataset_getitem_valid:
  assumes "i < length raw"
  shows "\<exists>ids mask.
           GlueDataset_getitem (GlueDataset_init tok raw n) (int i) =
             Inr \<lparr>item_input_ids = ids, item_attention_mask = mask,
                  item_labels = label (raw ! i)\<rparr>
           \<and> length ids = n \<and> length mask = n"
proof -
  obtain ids mask where
    tc: "tokenizer_call tok (sentence1 (raw ! i)) (sentence2 (raw ! i)) n =
           \<lparr>enc_input_ids = [ids], enc_attention_mask = [mask]\<rparr>"
    and len: "length ids = n" "length mask = n"
    using tokenizer_call_shape by blast
  have "GlueDataset_getitem (GlueDataset_init tok raw n) (int i) =
          Inr \<lparr>item_input_ids = ids, item_attention_mask = mask, item_labels = label (raw ! i)\<rparr>"
    using assms
    by (simp add: GlueDataset_getitem_def GlueDataset_init_inputs GlueDataset_init_labels
        py_index_nat tc)
  with len show ?thesis by blast
qed

lemma row_item_lengths:
  "length (item_input_ids (row_item tok n r)) = n"
  "length (item_attention_mask (row_item tok n r)) = n"
proof -
  obtain ids mask where
    "tokenizer_call tok (sentence1 r) (sentence2 r) n =
       \<lparr>enc_input_ids = [ids], enc_attention_mask = [mask]\<rparr>"
    "length ids = n" "length mask = n"
    using tokenizer_call_shape by blast
  then show "length (item_input_ids (row_item tok n r)) = n"
    and "length (item_attention_mask (row_item tok n r)) = n"
    by (simp_all add: row_item_def Let_def)
qed

lemma row_item_in_vocab:
  assumes "tokenizer_ok tok V"
  shows "in_vocab V (item_input_ids (row_item tok n r))"
proof -
  obtain a b where ab: "truncate_longest_first (encode tok (sentence1 r)) (encode tok (sentence2 r)) n
                          = (a, b)"
    by (cases "truncate_longest_first (encode tok (sentence1 r)) (encode tok (sentence2 r)) n")
  from truncate_longest_first_set [OF ab] assms
  have "in_vocab V a" "in_vocab V b"
    by (auto simp: tokenizer_ok_def in_vocab_def list_all_iff)
  moreover from assms have "in_vocab V (replicate k (pad_token_id tok))" for k
    by (simp add: tokenizer_ok_def in_vocab_def list_all_iff)
  ultimately have "in_vocab V (a @ b @ replicate (n - length (a @ b)) (pad_token_id tok))"
    by (simp add: in_vocab_def)
  then show ?thesis
    by (simp add: row_item_def tokenizer_call_def ab pad_to_max_length_def Let_def)
qed

lemma GlueDataset_getitem_item:
  assumes "i < length raw"
  shows "GlueDataset_getitem (GlueDataset_init tok raw n) (int i) = Inr (row_item tok n (raw ! i))"
  using assms
  by (simp add: GlueDataset_getitem_def GlueDataset_init_inputs GlueDataset_init_labels
      py_index_nat row_item_def Let_def)

lemma GlueDataset_getitem_wraps:
  assumes "- int (length raw) \<le> idx" and "idx < 0"
  shows "GlueDataset_getitem (GlueDataset_init tok raw n) idx =
           GlueDataset_getitem (GlueDataset_init tok raw n) (int (length raw) + idx)"
proof -
  have wrap: "py_index xs idx = py_index xs (int (length raw) + idx)"
    if "length xs = length raw" for xs :: "'a list"
    using assms that by (simp add: py_index_def)
  have "py_index (inputs (GlueDataset_init tok raw n)) idx =
          py_index (inputs (GlueDataset_init tok raw n)) (int (length raw) + idx)"
    by (rule wrap) (simp add: GlueDataset_init_inputs)
  moreover have "py_index (labels (GlueDataset_init tok raw n)) idx =
          py_index (labels (GlueDataset_init tok raw n)) (int (length raw) + idx)"
    by (rule wrap) (simp add: GlueDataset_init_labels)
  ultimately show ?thesis
    by (simp only: GlueDataset_getitem_def)
qed

section \<open>Properties of the forward pass\<close>

lemma sequence_result_map_Inr:
  "sequence_result (map Inr xs) = Inr xs"
  by (induction xs) simp_all

lemma sequence_result_Inr:
  "sequence_result rs = Inr xs \<Longrightarrow> rs = map Inr xs"
proof (induction rs arbitrary: xs)
  case Nil
  then show ?case by simp
next
  case (Cons r rs)
  from Cons.prems obtain x ys where r: "r = Inr x" and ys: "sequence_result rs = Inr ys"
    and xs: "xs = x # ys"
    by (auto split: sum.splits)
  from Cons.IH [OF ys] r xs show ?case by simp
qed

lemma sequence_result_Inr_iff:
  "sequence_result rs = Inr xs \<longleftrightarrow> rs = map Inr xs"
  using sequence_result_Inr sequence_result_map_Inr by blast

lemma sequence_result_length:
  "sequence_result rs = Inr xs \<Longrightarrow> length xs = length rs"
  by (auto dest: sequence_result_Inr)

lemma sequence_result_nth:
  "sequence_result rs = Inr xs \<Longrightarrow> i < length rs \<Longrightarrow> rs ! i = Inr (xs ! i)"
  by (auto dest: sequence_result_Inr)

lemma sequence_result_total:
  assumes "\<And>r. r \<in> set rs \<Longrightarrow> \<exists>x. r = Inr x"
  shows "\<exists>xs. sequence_result rs = Inr xs"
  using assms
proof (induction rs)
  case Nil
  show ?case by simp
next
  case (Cons r rs)
  then obtain x xs where "r = Inr x" "sequence_result rs = Inr xs"
    by (meson list.set_intros)
  then show ?case by simp
qed

lemma base_model_call_Inr:
  assumes "base_model_call base ids_batch mask_batch = Inr hs"
  shows "length hs = length ids_batch"
    and "length mask_batch = length ids_batch"
    and "\<And>i. i < length ids_batch \<Longrightarrow>
           architecture base (base_training base) (parameter_values (base_parameters base))
             (ids_batch ! i) (mask_batch ! i) = Inr (hs ! i)"
proof -
  from assms have len: "length ids_batch = length mask_batch"
    by (auto simp: base_model_call_def split: if_splits)
  with assms have seq: "sequence_result
             (map (\<lambda>(ids, mask).
                     architecture base (base_training base)
                       (parameter_values (base_parameters base)) ids mask)
                  (zip ids_batch mask_batch)) = Inr hs"
    by (simp add: base_model_call_def)
  from sequence_result_length [OF seq] len show "length hs = length ids_batch"
    by simp
  from len show "length mask_batch = length ids_batch"
    by simp
  fix i assume "i < length ids_batch"
  with sequence_result_nth [OF seq, of i] len
  show "architecture base (base_training base) (parameter_values (base_parameters base))
             (ids_batch ! i) (mask_batch ! i) = Inr (hs ! i)"
    by simp
qed

lemma base_model_call_total_gen:
  assumes len: "length ids_batch = length mask_batch"
    and good: "\<And>ids mask. (ids, mask) \<in> set (zip ids_batch mask_batch) \<Longrightarrow>
                 \<exists>h. architecture base (base_training base)
                        (parameter_values (base_parameters base)) ids mask = Inr h
                      \<and> h \<noteq> [] \<and> list_all (\<lambda>v. length v = hidden_size base) h"
  shows "\<exists>hs. base_model_call base ids_batch mask_batch = Inr hs
           \<and> [] \<notin> set hs
           \<and> list_all (list_all (\<lambda>v. length v = hidden_size base)) hs"
proof -
  let ?f = "\<lambda>(ids, mask). architecture base (base_training base)
                       (parameter_values (base_parameters base)) ids mask"
  have good': "\<exists>h. ?f pr = Inr h \<and> h \<noteq> [] \<and> list_all (\<lambda>v. length v = hidden_size base) h"
    if "pr \<in> set (zip ids_batch mask_batch)" for pr
  proof (cases pr)
    case (Pair a b)
    with that good [of a b] show ?thesis by simp
  qed
  then have "\<exists>hs. sequence_result (map ?f (zip ids_batch mask_batch)) = Inr hs"
    by (intro sequence_result_total) auto
  then obtain hs where seq: "sequence_result (map ?f (zip ids_batch mask_batch)) = Inr hs"
    by blast
  then have maps: "map ?f (zip ids_batch mask_batch) = map Inr hs"
    by (simp add: sequence_result_Inr_iff)
  have "h \<noteq> [] \<and> list_all (\<lambda>v. length v = hidden_size base) h" if "h \<in> set hs" for h
  proof -
    from that have "Inr h \<in> set (map ?f (zip ids_batch mask_batch))"
      by (simp add: maps)
    then obtain pr where "pr \<in> set (zip ids_batch mask_batch)" "?f pr = Inr h"
      by auto
    with good' [of pr] show ?thesis by auto
  qed
  then have "[] \<notin> set hs" "list_all (list_all (\<lambda>v. length v = hidden_size base)) hs"
    by (auto simp: list_all_iff)
  with seq len show ?thesis
    by (auto simp: base_model_call_def)
qed

lemma base_model_call_total:
  assumes "architecture_ok base" and "batch_ok ids_batch mask_batch"
  shows "\<exists>hs. base_model_call base ids_batch mask_batch = Inr hs
           \<and> [] \<notin> set hs
           \<and> list_all (list_all (\<lambda>v. length v = hidden_size base)) hs"
proof (rule base_model_call_total_gen)
  from assms(2) show "length ids_batch = length mask_batch"
    by (simp add: batch_ok_def)
next
  fix ids mask assume "(ids, mask) \<in> set (zip ids_batch mask_batch)"
  with assms(2) have "ids \<noteq> []" "length mask = length ids"
    by (auto simp: batch_ok_def list_all_iff)
  with assms(1) obtain h where
    "architecture base (base_training base) (parameter_values (base_parameters base)) ids mask
       = Inr h" "length h = length ids" "list_all (\<lambda>v. length v = hidden_size base) h"
    unfolding architecture_ok_def by blast
  with \<open>ids \<noteq> []\<close>
  show "\<exists>h. architecture base (base_training base)
              (parameter_values (base_parameters base)) ids mask = Inr h
            \<and> h \<noteq> [] \<and> list_all (\<lambda>v. length v = hidden_size base) h"
    by auto
qed

lemma base_model_call_total_on:
  assumes "network_ok V ps0 base"
    and "shaped_like (parameter_values (base_parameters base)) ps0"
    and "batch_ok ids_batch mask_batch"
    and "list_all (in_vocab V) ids_batch"
  shows "\<exists>hs. base_model_call base ids_batch mask_batch = Inr hs
           \<and> [] \<notin> set hs
           \<and> list_all (list_all (\<lambda>v. length v = hidden_size base)) hs"
proof (rule base_model_call_total_gen)
  from assms(3) show "length ids_batch = length mask_batch"
    by (simp add: batch_ok_def)
next
  fix ids mask assume mem: "(ids, mask) \<in> set (zip ids_batch mask_batch)"
  with assms(3) have "ids \<noteq> []" "length mask = length ids"
    by (auto simp: batch_ok_def list_all_iff)
  moreover from mem assms(4) have "in_vocab V ids"
    by (auto simp: list_all_iff dest: set_zip_leftD)
  ultimately obtain h where
    "architecture base (base_training base) (parameter_values (base_parameters base)) ids mask
       = Inr h" "length h = length ids" "list_all (\<lambda>v. length v = hidden_size base) h"
    using assms(1,2) unfolding network_ok_def by blast
  with \<open>ids \<noteq> []\<close>
  show "\<exists>h. architecture base (base_training base)
              (parameter_values (base_parameters base)) ids mask = Inr h
            \<and> h \<noteq> [] \<and> list_all (\<lambda>v. length v = hidden_size base) h"
    by auto
qed

lemma dropout_length:
  "length (dropout train p keep x) = length x"
  by (simp add: dropout_def)

lemma dropout_row_length:
  "i < length x \<Longrightarrow> length (dropout train p keep x ! i) = length (x ! i)"
  by (simp add: dropout_def nth_enumerate_eq)

lemma dropout_nth:
  assumes "i < length x"
  shows "dropout train p keep x ! i = spec_dropout train p (keep i) (x ! i)"
proof (cases train)
  case False
  then show ?thesis by (simp add: dropout_def spec_dropout_def)
next
  case True
  have "map (\<lambda>(j, v). if keep i j then v / (1 - p) else 0) (enumerate 0 (x ! i)) =
        map (\<lambda>j. if keep i j then x ! i ! j / (1 - p) else 0) [0..<length (x ! i)]"
    by (rule nth_equalityI) (simp_all add: nth_enumerate_eq)
  with True assms show ?thesis
    by (simp add: dropout_def spec_dropout_def nth_enumerate_eq)
qed

lemma dot_sum:
  assumes "length u = length v"
  shows "dot u v = (\<Sum>k<length u. v ! k * u ! k)"
proof -
  have "dot u v = (\<Sum>k<length (zip u v). fst (zip u v ! k) * snd (zip u v ! k))"
    by (simp add: dot_def sum_list_sum_nth atLeast0LessThan case_prod_beta)
  also have "\<dots> = (\<Sum>k<length u. v ! k * u ! k)"
    using assms by (intro sum.cong) (simp_all add: mult.commute)
  finally show ?thesis .
qed

lemma Linear_forward_Inr:
  assumes "Linear_forward lin x = Inr y"
  obtains W b where "data (weight lin) = Mat W" and "data (bias lin) = Vec b"
    and "length b = length W"
    and "\<And>xr wr. xr \<in> set x \<Longrightarrow> wr \<in> set W \<Longrightarrow> length xr = length wr"
    and "y = map (\<lambda>xr. map (\<lambda>(wr, bo). dot xr wr + bo) (zip W b)) x"
proof (cases "data (weight lin)")
  case (Vec v)
  with assms show ?thesis by (simp add: Linear_forward_def)
next
  case (Mat W)
  show ?thesis
  proof (cases "data (bias lin)")
    case inner: (Mat B)
    with Mat assms show ?thesis by (simp add: Linear_forward_def)
  next
    case (Vec b)
    with Mat assms that [of W b] show ?thesis
      by (auto simp: Linear_forward_def split: if_splits)
  qed
qed

lemma Linear_forward_shape:
  assumes "Linear_forward lin x = Inr y" and "data (weight lin) = Mat W"
  shows "length y = length x" and "\<And>row. row \<in> set y \<Longrightarrow> length row = length W"
proof -
  from assms(1) obtain W' b where
    "data (weight lin) = Mat W'" "length b = length W'"
    and y: "y = map (\<lambda>xr. map (\<lambda>(wr, bo). dot xr wr + bo) (zip W' b)) x"
    by (rule Linear_forward_Inr) blast
  with assms(2) have W: "W' = W" and b: "length b = length W" by simp_all
  from y show "length y = length x" by simp
  fix row assume "row \<in> set y"
  with y W b show "length row = length W" by auto
qed

lemma Linear_forward_nth:
  assumes "Linear_forward lin x = Inr y" and "data (weight lin) = Mat W"
    and "data (bias lin) = Vec b" and "i < length x"
  shows "y ! i = spec_linear_map W b (x ! i)"
proof -
  from assms(1) obtain W' b' where
    "data (weight lin) = Mat W'" "data (bias lin) = Vec b'" and lb: "length b' = length W'"
    and fit: "\<And>xr wr. xr \<in> set x \<Longrightarrow> wr \<in> set W' \<Longrightarrow> length xr = length wr"
    and y: "y = map (\<lambda>xr. map (\<lambda>(wr, bo). dot xr wr + bo) (zip W' b')) x"
    by (rule Linear_forward_Inr) blast
  with assms(2,3) have eq: "W' = W" "b' = b" by simp_all
  have "map (\<lambda>(wr, bo). dot (x ! i) wr + bo) (zip W b) = spec_linear_map W b (x ! i)"
  proof (rule nth_equalityI)
    show "length (map (\<lambda>(wr, bo). dot (x ! i) wr + bo) (zip W b)) =
          length (spec_linear_map W b (x ! i))"
      using lb eq by (simp add: spec_linear_map_def)
  next
    fix o' assume "o' < length (map (\<lambda>(wr, bo). dot (x ! i) wr + bo) (zip W b))"
    with lb eq have o': "o' < length W" by simp
    with fit [of "x ! i" "W ! o'"] assms(4) eq have "length (x ! i) = length (W ! o')"
      by simp
    from dot_sum [OF this] o' lb eq
    show "map (\<lambda>(wr, bo). dot (x ! i) wr + bo) (zip W b) ! o' =
          spec_linear_map W b (x ! i) ! o'"
      by (simp add: spec_linear_map_def)
  qed
  with y eq assms(4) show ?thesis by simp
qed

lemma Linear_forward_total:
  assumes "data (weight lin) = Mat W" and "data (bias lin) = Vec b"
    and "length b = length W"
    and "\<And>xr wr. xr \<in> set x \<Longrightarrow> wr \<in> set W \<Longrightarrow> length xr = length wr"
  shows "\<exists>y. Linear_forward lin x = Inr y"
  using assms by (auto simp: Linear_forward_def)

lemma CustomClassifier_forward_Inr:
  assumes "CustomClassifier_forward m keep input_ids attention_mask = Inr logits"
  obtains hs where "base_model_call (base_model m) input_ids attention_mask = Inr hs"
    and "[] \<notin> set hs"
    and "Linear_forward (linear (classifier m))
           (dropout (training m) (dropout_p (classifier m)) keep (map (\<lambda>h. h ! 0) hs))
         = Inr logits"
proof (cases "base_model_call (base_model m) input_ids attention_mask")
  case (Inl e)
  with assms show ?thesis by (simp add: CustomClassifier_forward_def)
next
  case (Inr hs)
  with assms that [of hs] show ?thesis
    by (auto simp: CustomClassifier_forward_def select_first_def Sequential_forward_def
        split: if_splits)
qed

lemma CustomClassifier_forward_nth:
  assumes "CustomClassifier_forward m keep input_ids attention_mask = Inr logits"
  shows "\<exists>W b.
           data (weight (linear (classifier m))) = Mat W
           \<and> data (bias (linear (classifier m))) = Vec b
           \<and> length logits = length input_ids
           \<and> (\<forall>i < length input_ids. \<exists>hidden.
                 architecture (base_model m) (base_training (base_model m))
                   (parameter_values (base_parameters (base_model m)))
                   (input_ids ! i) (attention_mask ! i) = Inr hidden
                 \<and> hidden \<noteq> []
                 \<and> logits ! i = spec_logits m (keep i) W b hidden
                 \<and> length (logits ! i) = length W)"
proof -
  from assms obtain hs where
    hs: "base_model_call (base_model m) input_ids attention_mask = Inr hs"
    and ne: "[] \<notin> set hs"
    and lin: "Linear_forward (linear (classifier m))
           (dropout (training m) (dropout_p (classifier m)) keep (map (\<lambda>h. h ! 0) hs))
         = Inr logits"
    by (rule CustomClassifier_forward_Inr) blast
  from lin obtain W b where W: "data (weight (linear (classifier m))) = Mat W"
    and b: "data (bias (linear (classifier m))) = Vec b"
    by (rule Linear_forward_Inr) blast
  have len_hs: "length hs = length input_ids"
    by (rule base_model_call_Inr(1) [OF hs])
  have len: "length logits = length input_ids"
    using Linear_forward_shape(1) [OF lin W] len_hs by (simp add: dropout_length)
  have "\<exists>hidden.
          architecture (base_model m) (base_training (base_model m))
            (parameter_values (base_parameters (base_model m)))
            (input_ids ! i) (attention_mask ! i) = Inr hidden
          \<and> hidden \<noteq> []
          \<and> logits ! i = spec_logits m (keep i) W b hidden
          \<and> length (logits ! i) = length W"
    if i: "i < length input_ids" for i
  proof -
    let ?x = "dropout (training m) (dropout_p (classifier m)) keep (map (\<lambda>h. h ! 0) hs)"
    from i len_hs have ix: "i < length ?x" "i < length (map (\<lambda>h. h ! 0) hs)"
      by (simp_all add: dropout_length)
    have "logits ! i = spec_linear_map W b (?x ! i)"
      by (rule Linear_forward_nth [OF lin W b ix(1)])
    also have "?x ! i = spec_dropout (training m) (dropout_p (classifier m)) (keep i)
                         (map (\<lambda>h. h ! 0) hs ! i)"
      by (rule dropout_nth [OF ix(2)])
    finally have "logits ! i = spec_logits m (keep i) W b (hs ! i)"
      using i len_hs by (simp add: spec_logits_def)
    moreover from i len_hs ne have "hs ! i \<noteq> []"
      by (metis nth_mem)
    moreover from i len have "logits ! i \<in> set logits"
      by simp
    then have "length (logits ! i) = length W"
      by (rule Linear_forward_shape(2) [OF lin W])
    ultimately show ?thesis
      using base_model_call_Inr(3) [OF hs i] by blast
  qed
  with W b len show ?thesis by blast
qed

lemma CustomClassifier_forward_shape:
  assumes "CustomClassifier_forward m keep input_ids attention_mask = Inr logits"
    and "classifier_shape m n"
  shows "length logits = length input_ids" and "list_all (\<lambda>row. length row = n) logits"
proof -
  from assms(1) obtain hs where
    hs: "base_model_call (base_model m) input_ids attention_mask = Inr hs"
    and lin: "Linear_forward (linear (classifier m))
           (dropout (training m) (dropout_p (classifier m)) keep (map (\<lambda>h. h ! 0) hs))
         = Inr logits"
    by (rule CustomClassifier_forward_Inr) blast
  from assms(2) obtain W where W: "data (weight (linear (classifier m))) = Mat W"
    and n: "length W = n"
    by (auto simp: classifier_shape_def split: tensor.splits)
  from Linear_forward_shape(1) [OF lin W] base_model_call_Inr(1) [OF hs]
  show "length logits = length input_ids"
    by (simp add: dropout_length)
  from Linear_forward_shape(2) [OF lin W] n
  show "list_all (\<lambda>row. length row = n) logits"
    by (simp add: list_all_iff)
qed

lemma CustomClassifier_forward_total_gen:
  assumes "classifier_shape m n"
    and "\<exists>hs. base_model_call (base_model m) input_ids attention_mask = Inr hs
           \<and> [] \<notin> set hs
           \<and> list_all (list_all (\<lambda>v. length v = hidden_size (base_model m))) hs"
  shows "\<exists>logits. CustomClassifier_forward m keep input_ids attention_mask = Inr logits"
proof -
  from assms(2) obtain hs where
    hs: "base_model_call (base_model m) input_ids attention_mask = Inr hs"
    and ne: "[] \<notin> set hs"
    and sh: "list_all (list_all (\<lambda>v. length v = hidden_size (base_model m))) hs"
    by blast
  from assms(1) obtain W b where W: "data (weight (linear (classifier m))) = Mat W"
    and b: "data (bias (linear (classifier m))) = Vec b" and lb: "length b = length W"
    and rows: "list_all (\<lambda>wr. length wr = hidden_size (base_model m)) W"
    by (auto simp: classifier_shape_def split: tensor.splits)
  let ?x = "dropout (training m) (dropout_p (classifier m)) keep (map (\<lambda>h. h ! 0) hs)"
  have "length xr = length wr" if "xr \<in> set ?x" "wr \<in> set W" for xr wr
  proof -
    from that(1) obtain i where i: "i < length hs" and xr: "xr = ?x ! i"
      by (auto simp: in_set_conv_nth dropout_length)
    from i have "length (?x ! i) = length (hs ! i ! 0)"
      by (simp add: dropout_row_length)
    moreover from i ne have "hs ! i \<noteq> []"
      by (metis nth_mem)
    with i sh have "length (hs ! i ! 0) = hidden_size (base_model m)"
      by (auto simp: list_all_length)
    ultimately show ?thesis
      using xr that(2) rows by (simp add: list_all_iff)
  qed
  from Linear_forward_total [OF W b lb this] obtain y where
    "Linear_forward (linear (classifier m)) ?x = Inr y"
    by blast
  with hs ne show ?thesis
    by (simp add: CustomClassifier_forward_def select_first_def Sequential_forward_def)
qed

lemma CustomClassifier_forward_total:
  assumes "classifier_shape m n" and "architecture_ok (base_model m)"
    and "batch_ok input_ids attention_mask"
  shows "\<exists>logits. CustomClassifier_forward m keep input_ids attention_mask = Inr logits"
  by (rule CustomClassifier_forward_total_gen [OF assms(1) base_model_call_total [OF assms(2,3)]])

lemma CustomClassifier_forward_total_on:
  assumes "classifier_shape m n" and "network_ok V ps0 (base_model m)"
    and "shaped_like (parameter_values (base_parameters (base_model m))) ps0"
    and "batch_ok input_ids attention_mask"
    and "list_all (in_vocab V) input_ids"
  shows "\<exists>logits. CustomClassifier_forward m keep input_ids attention_mask = Inr logits"
  by (rule CustomClassifier_forward_total_gen
      [OF assms(1) base_model_call_total_on [OF assms(2-5)]])

lemma CustomClassifier_init_shape:
  "classifier_shape (CustomClassifier_init base n w0 b0) n"
  by (simp add: classifier_shape_def CustomClassifier_init_def Linear_init_def new_parameter_def
      list_all_iff)

section \<open>Properties of the loaders and of the evaluation loop\<close>

declare chunks.simps [simp del]

lemma chunks_concat:
  "0 < n \<Longrightarrow> concat (chunks n xs) = xs"
proof (induction n xs rule: chunks.induct)
  case (1 n xs)
  show ?case
  proof (cases "xs = []")
    case True
    then show ?thesis by (simp add: chunks.simps [of n "[]"])
  next
    case False
    with "1.prems" have "chunks n xs = take n xs # chunks n (drop n xs)"
      by (simp add: chunks.simps [of n xs])
    moreover from False "1.prems" "1.IH" have "concat (chunks n (drop n xs)) = drop n xs"
      by simp
    ultimately show ?thesis by simp
  qed
qed

lemma fetch_init:
  assumes "\<And>i. i \<in> set idxs \<Longrightarrow> i < length raw"
  shows "fetch (GlueDataset_init tok raw n) idxs = Inr (batch_of tok n raw idxs)"
proof -
  have "map (\<lambda>i. GlueDataset_getitem (GlueDataset_init tok raw n) (int i)) idxs =
        map Inr (map (\<lambda>i. row_item tok n (raw ! i)) idxs)"
    using assms by (simp add: GlueDataset_getitem_item)
  then have "sequence_result
               (map (\<lambda>i. GlueDataset_getitem (GlueDataset_init tok raw n) (int i)) idxs) =
             Inr (map (\<lambda>i. row_item tok n (raw ! i)) idxs)"
    by (simp only: sequence_result_map_Inr)
  then show ?thesis
    by (simp add: fetch_def default_collate_def row_item_lengths comp_def batch_of_def)
qed

lemma batch_of_ok:
  assumes "0 < L"
  shows "batch_ok (batch_input_ids (batch_of tok L raw idxs))
           (batch_attention_mask (batch_of tok L raw idxs))"
proof -
  have "item_input_ids (row_item tok L r) \<noteq> []" for r
    using assms row_item_lengths(1) [of tok L r] by auto
  then show ?thesis
    by (auto simp: batch_of_def batch_ok_def list_all_iff row_item_lengths zip_map_map)
qed

lemma model_call_model:
  "model (snd (model_call lib st input_ids attention_mask)) = model st"
  by (simp add: model_call_def)

lemma model_call_optimizer:
  "optimizer (snd (model_call lib st input_ids attention_mask)) = optimizer st"
  by (simp add: model_call_def)

lemma model_call_eval:
  "\<not> training (model st) \<Longrightarrow>
     model_call lib st input_ids attention_mask =
       (CustomClassifier_forward (model st) (bernoulli lib (draws st)) input_ids attention_mask,
        st)"
  by (simp add: model_call_def)

lemma eval_batches_model:
  "model (snd (eval_batches lib ds chs total_acc st)) = model st
   \<and> optimizer (snd (eval_batches lib ds chs total_acc st)) = optimizer st"
proof (induction chs arbitrary: total_acc st)
  case Nil
  show ?case by simp
next
  case (Cons idxs rest)
  show ?case
  proof (cases "fetch ds idxs")
    case (Inl e)
    then show ?thesis by simp
  next
    case (Inr batch)
    obtain r st' where mc:
      "model_call lib st (batch_input_ids batch) (batch_attention_mask batch) = (r, st')"
      by (cases "model_call lib st (batch_input_ids batch) (batch_attention_mask batch)")
    with model_call_model [of lib st "batch_input_ids batch" "batch_attention_mask batch"]
      model_call_optimizer [of lib st "batch_input_ids batch" "batch_attention_mask batch"]
    have st': "model st' = model st" "optimizer st' = optimizer st"
      by simp_all
    show ?thesis
    proof (cases r)
      case (Inl e)
      with Inr mc st' show ?thesis by simp
    next
      case logits: (Inr logits)
      show ?thesis
      proof (cases "argmax logits")
        case (Inl e)
        with Inr mc logits st' show ?thesis by simp
      next
        case preds: (Inr predictions)
        show ?thesis
        proof (cases "count_equal predictions (batch_labels batch)")
          case (Inl e)
          with Inr mc logits preds st' show ?thesis by simp
        next
          case c: (Inr c)
          with Inr mc logits preds st' Cons.IH [of "total_acc + c" st'] show ?thesis by simp
        qed
      qed
    qed
  qed
qed

lemma sampler_model:
  "model (snd (sampler lib loader st)) = model st
   \<and> optimizer (snd (sampler lib loader st)) = optimizer st"
  by (simp add: sampler_def)

lemma named_parameters_set_mode:
  "named_parameters (set_mode mode m) = named_parameters m"
  by (simp add: named_parameters_def set_mode_def)

lemma evaluation_model:
  "model (snd (evaluation lib eval_loader st)) = set_mode False (model st)
   \<and> optimizer (snd (evaluation lib eval_loader st)) = optimizer st"
proof -
  let ?st1 = "st\<lparr>model := set_mode False (model st)\<rparr>"
  obtain order st2 where s: "sampler lib eval_loader ?st1 = (order, st2)"
    by (cases "sampler lib eval_loader ?st1")
  with sampler_model [of lib eval_loader ?st1]
  have st2: "model st2 = set_mode False (model st)" "optimizer st2 = optimizer st"
    by simp_all
  obtain r st3 where e: "eval_batches lib (dataset eval_loader)
       (chunks (batch_size eval_loader) order) 0 st2 = (r, st3)"
    by (cases "eval_batches lib (dataset eval_loader)
       (chunks (batch_size eval_loader) order) 0 st2")
  with eval_batches_model [of lib "dataset eval_loader" "chunks (batch_size eval_loader) order" 0 st2]
    st2
  have st3: "model st3 = set_mode False (model st)" "optimizer st3 = optimizer st"
    by simp_all
  have "snd (evaluation lib eval_loader st) = st3"
    by (cases r) (simp_all add: evaluation_def s e)
  with st3 show ?thesis by simp
qed

lemma set_mode_fields:
  "training (set_mode mode m) = mode"
  "classifier (set_mode mode m) = classifier m"
  "hidden_size (base_model (set_mode mode m)) = hidden_size (base_model m)"
  "architecture (base_model (set_mode mode m)) = architecture (base_model m)"
  "base_parameters (base_model (set_mode mode m)) = base_parameters (base_model m)"
  by (simp_all add: set_mode_def)

lemma classifier_shape_set_mode:
  "classifier_shape (set_mode mode m) n = classifier_shape m n"
  by (simp add: classifier_shape_def set_mode_fields cong: tensor.case_cong)

lemma architecture_ok_set_mode:
  "architecture_ok (base_model (set_mode mode m)) = architecture_ok (base_model m)"
  by (simp add: architecture_ok_def set_mode_fields)

lemma network_ok_set_mode:
  "network_ok V shapes (base_model (set_mode mode m)) = network_ok V shapes (base_model m)"
  by (simp add: network_ok_def set_mode_fields)

lemma same_shape_refl:
  "same_shape t t"
  by (cases t) simp_all

lemma same_shape_sym:
  "same_shape s t \<Longrightarrow> same_shape t s"
  by (cases s; cases t) simp_all

lemma same_shape_trans:
  "same_shape s t \<Longrightarrow> same_shape t u \<Longrightarrow> same_shape s u"
  by (cases s; cases t; cases u) simp_all

lemma shaped_like_refl:
  "shaped_like ps ps"
  unfolding shaped_like_def by (rule list_all2_refl) (simp add: same_shape_refl split: prod.split)

lemma batch_of_in_vocab:
  assumes "tokenizer_ok tok V"
  shows "list_all (in_vocab V) (batch_input_ids (batch_of tok L raw idxs))"
  using row_item_in_vocab [OF assms] by (simp add: batch_of_def list_all_iff)

text \<open>
  The scan of \<open>argmax_from\<close> returns the first position of the maximum: \<open>pre\<close> is the part of
  the row already scanned, \<open>best\<close> the position of its first maximum and \<open>v\<close> the value
  there.
\<close>

lemma is_first_max_iff:
  "is_first_max row p \<longleftrightarrow>
     p < length row \<and> (\<forall>j < length row. row ! j \<le> row ! p) \<and> (\<forall>j < p. row ! j < row ! p)"
  by (auto simp: is_first_max_def list_all_iff)

lemma is_first_max_unique:
  assumes "is_first_max row p" and "is_first_max row q"
  shows "p = q"
proof (rule ccontr)
  assume "p \<noteq> q"
  then consider "p < q" | "q < p" by linarith
  then show False
  proof cases
    case 1
    with assms(2) have "row ! p < row ! q" by (simp add: is_first_max_iff)
    moreover from assms have "row ! q \<le> row ! p" by (simp add: is_first_max_iff)
    ultimately show False by simp
  next
    case 2
    with assms(1) have "row ! q < row ! p" by (simp add: is_first_max_iff)
    moreover from assms have "row ! p \<le> row ! q" by (simp add: is_first_max_iff)
    ultimately show False by simp
  qed
qed

lemma argmax_from_first_max:
  assumes "is_first_max pre best" and "v = pre ! best"
  shows "is_first_max (pre @ xs) (argmax_from best v (length pre) xs)"
  using assms
proof (induction xs arbitrary: pre best v)
  case Nil
  then show ?case by simp
next
  case (Cons x xs)
  from Cons.prems have best: "best < length pre"
    and le: "\<And>j. j < length pre \<Longrightarrow> pre ! j \<le> v"
    and lt: "\<And>j. j < best \<Longrightarrow> pre ! j < v"
    by (simp_all add: is_first_max_iff)
  show ?case
  proof (cases "v < x")
    case True
    have "is_first_max (pre @ [x]) (length pre)"
      unfolding is_first_max_iff
    proof (intro conjI allI impI)
      show "length pre < length (pre @ [x])" by simp
    next
      fix j assume "j < length (pre @ [x])"
      then consider "j < length pre" | "j = length pre" by fastforce
      then show "(pre @ [x]) ! j \<le> (pre @ [x]) ! length pre"
      proof cases
        case 1
        with le [of j] True show ?thesis by (simp add: nth_append)
      next
        case 2
        then show ?thesis by simp
      qed
    next
      fix j assume "j < length pre"
      with le [of j] True show "(pre @ [x]) ! j < (pre @ [x]) ! length pre"
        by (simp add: nth_append)
    qed
    from Cons.IH [OF this, of x] True show ?thesis
      by simp
  next
    case False
    have "is_first_max (pre @ [x]) best"
      unfolding is_first_max_iff
    proof (intro conjI allI impI)
      from best show "best < length (pre @ [x])" by simp
    next
      fix j assume "j < length (pre @ [x])"
      then consider "j < length pre" | "j = length pre" by fastforce
      then show "(pre @ [x]) ! j \<le> (pre @ [x]) ! best"
      proof cases
        case 1
        with le [of j] best Cons.prems(2) show ?thesis by (simp add: nth_append)
      next
        case 2
        with False best Cons.prems(2) show ?thesis by (simp add: nth_append)
      qed
    next
      fix j assume "j < best"
      with lt [of j] best Cons.prems(2) show "(pre @ [x]) ! j < (pre @ [x]) ! best"
        by (simp add: nth_append)
    qed
    moreover from best Cons.prems(2) have "v = (pre @ [x]) ! best"
      by (simp add: nth_append)
    ultimately have "is_first_max ((pre @ [x]) @ xs)
                       (argmax_from best v (length (pre @ [x])) xs)"
      by (rule Cons.IH)
    with False show ?thesis
      by simp
  qed
qed

lemma argmax_row_first_max:
  assumes "row \<noteq> []"
  shows "is_first_max row (argmax_from 0 (row ! 0) 1 (tl row))"
proof -
  have "is_first_max [row ! 0] 0"
    by (simp add: is_first_max_iff)
  from argmax_from_first_max [OF this, of "row ! 0" "tl row"] assms show ?thesis
    by (cases row) simp_all
qed

lemma argmax_row_label:
  assumes "row \<noteq> []"
  shows "int (argmax_from 0 (row ! 0) 1 (tl row)) = l \<longleftrightarrow> 0 \<le> l \<and> is_first_max row (nat l)"
proof
  assume "int (argmax_from 0 (row ! 0) 1 (tl row)) = l"
  then have "0 \<le> l" "nat l = argmax_from 0 (row ! 0) 1 (tl row)" by auto
  with argmax_row_first_max [OF assms] show "0 \<le> l \<and> is_first_max row (nat l)"
    by simp
next
  assume r: "0 \<le> l \<and> is_first_max row (nat l)"
  with argmax_row_first_max [OF assms] have "nat l = argmax_from 0 (row ! 0) 1 (tl row)"
    by (intro is_first_max_unique [of row]) simp_all
  then have "int (argmax_from 0 (row ! 0) 1 (tl row)) = int (nat l)"
    by (simp only:)
  also from r have "\<dots> = l"
    by simp
  finally show "int (argmax_from 0 (row ! 0) 1 (tl row)) = l" .
qed

lemma argmax_Inr:
  "[] \<notin> set logits \<Longrightarrow>
     argmax logits = Inr (map (\<lambda>row. argmax_from 0 (row ! 0) 1 (tl row)) logits)"
  by (simp add: argmax_def)

lemma forward_eval_single:
  assumes "\<not> training m"
    and "CustomClassifier_forward m keep input_ids attention_mask = Inr logits"
    and "i < length input_ids"
  shows "CustomClassifier_forward m keep' [input_ids ! i] [attention_mask ! i] = Inr [logits ! i]"
proof -
  from assms(2) obtain hs where
    hs: "base_model_call (base_model m) input_ids attention_mask = Inr hs"
    and ne: "[] \<notin> set hs"
    and lin0: "Linear_forward (linear (classifier m))
           (dropout (training m) (dropout_p (classifier m)) keep (map (\<lambda>h. h ! 0) hs))
         = Inr logits"
    by (rule CustomClassifier_forward_Inr) blast
  from lin0 assms(1) have lin:
    "Linear_forward (linear (classifier m)) (map (\<lambda>h. h ! 0) hs) = Inr logits"
    by (simp add: dropout_def)
  from lin obtain W b where W: "data (weight (linear (classifier m))) = Mat W"
    and b: "data (bias (linear (classifier m))) = Vec b" and lb: "length b = length W"
    and fit: "\<And>xr wr. xr \<in> set (map (\<lambda>h. h ! 0) hs) \<Longrightarrow> wr \<in> set W \<Longrightarrow> length xr = length wr"
    and y: "logits = map (\<lambda>xr. map (\<lambda>(wr, bo). dot xr wr + bo) (zip W b)) (map (\<lambda>h. h ! 0) hs)"
    by (rule Linear_forward_Inr) blast
  have len_hs: "length hs = length input_ids"
    by (rule base_model_call_Inr(1) [OF hs])
  with assms(3) have i: "i < length hs" by simp
  with ne have nonempty: "hs ! i \<noteq> []"
    by (metis nth_mem)
  have arch: "architecture (base_model m) (base_training (base_model m))
      (parameter_values (base_parameters (base_model m)))
      (input_ids ! i) (attention_mask ! i) = Inr (hs ! i)"
    by (rule base_model_call_Inr(3) [OF hs assms(3)])
  then have call: "base_model_call (base_model m) [input_ids ! i] [attention_mask ! i] = Inr [hs ! i]"
    by (simp add: base_model_call_def)
  from nonempty have sel: "select_first [hs ! i] = Inr [hs ! i ! 0]"
    by (simp add: select_first_def)
  from i have "hs ! i ! 0 \<in> set (map (\<lambda>h. h ! 0) hs)"
    by (metis (no_types, lifting) length_map nth_map nth_mem)
  with fit have fit1: "\<And>wr. wr \<in> set W \<Longrightarrow> length (hs ! i ! 0) = length wr"
    by blast
  then have "Linear_forward (linear (classifier m)) [hs ! i ! 0] =
      Inr [map (\<lambda>(wr, bo). dot (hs ! i ! 0) wr + bo) (zip W b)]"
    using W b lb by (simp add: Linear_forward_def)
  moreover from y i have "logits ! i = map (\<lambda>(wr, bo). dot (hs ! i ! 0) wr + bo) (zip W b)"
    by simp
  ultimately have "Linear_forward (linear (classifier m)) [hs ! i ! 0] = Inr [logits ! i]"
    by simp
  with call sel assms(1) show ?thesis
    by (simp add: CustomClassifier_forward_def Sequential_forward_def dropout_def)
qed

lemma filter_length_pointwise:
  assumes "length xs = length ys"
    and "\<And>k. k < length xs \<Longrightarrow> P (xs ! k) \<longleftrightarrow> Q (ys ! k)"
  shows "length (filter P xs) = length (filter Q ys)"
  using assms
proof (induction xs ys rule: list_induct2)
  case Nil
  show ?case by simp
next
  case (Cons x xs y ys)
  from Cons.prems [of 0] have head: "P x \<longleftrightarrow> Q y" by simp
  have "\<And>k. k < length xs \<Longrightarrow> P (xs ! k) \<longleftrightarrow> Q (ys ! k)"
    using Cons.prems [of "Suc _"] by simp
  with Cons.IH have "length (filter P xs) = length (filter Q ys)" by blast
  with head show ?case by simp
qed

text \<open>One pass of the evaluation loop over a batch of valid indices, in evaluation mode.\<close>

lemma eval_batches_step:
  assumes eval_mode: "\<not> training (model st)"
    and shape: "classifier_shape (model st) n" and n: "0 < n"
    and net: "network_ok V shapes (base_model (model st))"
    and shaped: "shaped_like (parameter_values (base_parameters (base_model (model st)))) shapes"
    and tok: "tokenizer_ok tok V"
    and L: "0 < L"
    and valid: "\<And>i. i \<in> set idxs \<Longrightarrow> i < length raw"
  shows "eval_batches lib (GlueDataset_init tok raw L) (idxs # rest) total_acc st =
         eval_batches lib (GlueDataset_init tok raw L) rest
           (total_acc + correct_count (model st) (map (\<lambda>i. row_item tok L (raw ! i)) idxs)) st"
proof -
  let ?items = "map (\<lambda>i. row_item tok L (raw ! i)) idxs"
  let ?ids = "map (\<lambda>i. item_input_ids (row_item tok L (raw ! i))) idxs"
  let ?mask = "map (\<lambda>i. item_attention_mask (row_item tok L (raw ! i))) idxs"
  let ?labels = "map (\<lambda>i. item_labels (row_item tok L (raw ! i))) idxs"
  let ?batch = "\<lparr>batch_input_ids = ?ids, batch_attention_mask = ?mask, batch_labels = ?labels\<rparr>"
  let ?keep = "bernoulli lib (draws st)"
  have fetch: "fetch (GlueDataset_init tok raw L) idxs = Inr ?batch"
    using fetch_init [of idxs raw tok L] valid by (simp add: batch_of_def)
  have ok: "batch_ok ?ids ?mask"
    using batch_of_ok [OF L, of tok raw idxs] by (simp add: batch_of_def)
  have vocab: "list_all (in_vocab V) ?ids"
    using batch_of_in_vocab [OF tok, of L raw idxs] by (simp add: batch_of_def)
  from CustomClassifier_forward_total_on [OF shape net shaped ok vocab, of ?keep]
  obtain logits where
    fw: "CustomClassifier_forward (model st) ?keep ?ids ?mask = Inr logits"
    by blast
  with eval_mode have call: "model_call lib st ?ids ?mask = (Inr logits, st)"
    by (simp add: model_call_eval)
  from CustomClassifier_forward_shape [OF fw shape]
  have len: "length logits = length idxs" and rows: "list_all (\<lambda>row. length row = n) logits"
    by simp_all
  from rows n have "[] \<notin> set logits"
    by (auto simp: list_all_iff)
  then have am: "argmax logits = Inr (map (\<lambda>row. argmax_from 0 (row ! 0) 1 (tl row)) logits)"
    by (rule argmax_Inr)
  let ?preds = "map (\<lambda>row. argmax_from 0 (row ! 0) 1 (tl row)) logits"
  have "length (filter (\<lambda>(p, l). int p = l) (zip ?preds ?labels)) =
        length (filter (is_correct (model st)) ?items)"
  proof (rule filter_length_pointwise)
    show "length (zip ?preds ?labels) = length ?items"
      using len by simp
  next
    fix k assume "k < length (zip ?preds ?labels)"
    with len have k: "k < length idxs" by simp
    from k have single: "CustomClassifier_forward (model st) (\<lambda>i j. True) [?ids ! k] [?mask ! k]
                   = Inr [logits ! k]"
      by (intro forward_eval_single [OF eval_mode fw]) simp
    from k len \<open>[] \<notin> set logits\<close> have "logits ! k \<noteq> []"
      by (metis nth_mem)
    from argmax_row_label [OF this, of "?labels ! k"] single k len
    show "(case zip ?preds ?labels ! k of (p, l) \<Rightarrow> int p = l) \<longleftrightarrow>
          is_correct (model st) (?items ! k)"
      by (simp add: is_correct_def)
  qed
  with len have cnt: "count_equal ?preds ?labels = Inr (correct_count (model st) ?items)"
    by (simp add: count_equal_def correct_count_def)
  from fetch call am cnt show ?thesis
    by simp
qed

lemma eval_batches_all:
  assumes eval_mode: "\<not> training (model st)"
    and shape: "classifier_shape (model st) n" and n: "0 < n"
    and net: "network_ok V shapes (base_model (model st))"
    and shaped: "shaped_like (parameter_values (base_parameters (base_model (model st)))) shapes"
    and tok: "tokenizer_ok tok V"
    and L: "0 < L"
    and valid: "\<And>i. i \<in> set (concat chs) \<Longrightarrow> i < length raw"
  shows "eval_batches lib (GlueDataset_init tok raw L) chs total_acc st =
         (Inr (total_acc
               + correct_count (model st) (map (\<lambda>i. row_item tok L (raw ! i)) (concat chs))),
          st)"
  using valid
proof (induction chs arbitrary: total_acc)
  case Nil
  show ?case by (simp add: correct_count_def)
next
  case (Cons idxs rest)
  have "eval_batches lib (GlueDataset_init tok raw L) (idxs # rest) total_acc st =
        eval_batches lib (GlueDataset_init tok raw L) rest
          (total_acc + correct_count (model st) (map (\<lambda>i. row_item tok L (raw ! i)) idxs)) st"
    by (rule eval_batches_step [OF eval_mode shape n net shaped tok L]) (simp add: Cons.prems)
  also have "\<dots> =
        (Inr (total_acc + correct_count (model st) (map (\<lambda>i. row_item tok L (raw ! i)) idxs)
              + correct_count (model st) (map (\<lambda>i. row_item tok L (raw ! i)) (concat rest))),
         st)"
    by (rule Cons.IH) (simp add: Cons.prems)
  finally show ?case
    by (simp add: correct_count_def)
qed

lemma evaluation_result:
  assumes shape: "classifier_shape (model st) n" and n: "0 < n"
    and net: "network_ok V shapes (base_model (model st))"
    and shaped: "shaped_like (parameter_values (base_parameters (base_model (model st)))) shapes"
    and tok: "tokenizer_ok tok V"
    and L: "0 < L" and bs: "0 < bs"
  shows "fst (evaluation lib
                \<lparr>dataset = GlueDataset_init tok raw L, batch_size = bs, shuffle = False\<rparr> st) =
         (if raw = [] then Inl ZeroDivisionError
          else Inr (real (correct_count (set_mode False (model st)) (map (row_item tok L) raw))
                    / real (length raw)))"
proof -
  let ?st1 = "st\<lparr>model := set_mode False (model st)\<rparr>"
  let ?loader = "\<lparr>dataset = GlueDataset_init tok raw L, batch_size = bs, shuffle = False\<rparr>"
  have s: "sampler lib ?loader ?st1 = ([0..<length raw], ?st1)"
    by (simp add: sampler_def GlueDataset_init_len)
  have c: "concat (chunks bs [0..<length raw]) = [0..<length raw]"
    by (rule chunks_concat [OF bs])
  have "eval_batches lib (GlueDataset_init tok raw L) (chunks bs [0..<length raw]) 0 ?st1 =
        (Inr (0 + correct_count (model ?st1)
                    (map (\<lambda>i. row_item tok L (raw ! i)) (concat (chunks bs [0..<length raw])))),
         ?st1)"
  proof (rule eval_batches_all [where n = n and V = V and shapes = shapes])
    show "\<not> training (model ?st1)" by (simp add: set_mode_fields)
    show "classifier_shape (model ?st1) n" by (simp add: classifier_shape_set_mode shape)
    show "0 < n" by (rule n)
    show "network_ok V shapes (base_model (model ?st1))" by (simp add: network_ok_set_mode net)
    show "shaped_like (parameter_values (base_parameters (base_model (model ?st1)))) shapes"
      by (simp add: set_mode_fields shaped)
    show "tokenizer_ok tok V" by (rule tok)
    show "0 < L" by (rule L)
    show "i < length raw" if "i \<in> set (concat (chunks bs [0..<length raw]))" for i
      using that by (simp add: c)
  qed
  moreover have "map (\<lambda>i. row_item tok L (raw ! i)) [0..<length raw] = map (row_item tok L) raw"
    by (rule nth_equalityI) simp_all
  ultimately have "eval_batches lib (GlueDataset_init tok raw L) (chunks bs [0..<length raw]) 0 ?st1 =
        (Inr (correct_count (set_mode False (model st)) (map (row_item tok L) raw)), ?st1)"
    by (simp add: c)
  then show ?thesis
    by (simp add: evaluation_def s GlueDataset_init_len)
qed

lemma correct_count_le:
  "correct_count m items \<le> length items"
  by (simp add: correct_count_def)

section \<open>Properties of the training loop\<close>

lemma named_parameters_map_parameters:
  "named_parameters (map_parameters f m) = map (\<lambda>(n, p). (n, f n p)) (named_parameters m)"
  by (simp add: named_parameters_def map_parameters_def case_prod_beta comp_def)

lemma map_parameters_frame:
  "hidden_size (base_model (map_parameters f m)) = hidden_size (base_model m)"
  "architecture (base_model (map_parameters f m)) = architecture (base_model m)"
  "graph_parameters (base_model (map_parameters f m)) = graph_parameters (base_model m)"
  "base_parameters (base_model (map_parameters f m)) =
     map (\<lambda>(n, p). (n, f (''base_model.'' @ n) p)) (base_parameters (base_model m))"
  "data (weight (linear (classifier (map_parameters f m)))) =
     data (f ''classifier.1.weight'' (weight (linear (classifier m))))"
  "data (bias (linear (classifier (map_parameters f m)))) =
     data (f ''classifier.1.bias'' (bias (linear (classifier m))))"
  by (simp_all add: map_parameters_def)

lemma network_ok_map_parameters:
  "network_ok V shapes (base_model (map_parameters f m)) = network_ok V shapes (base_model m)"
  by (simp add: network_ok_def map_parameters_frame)

lemma forward_graph_map_parameters:
  "CustomClassifier_forward_graph (map_parameters f m) = CustomClassifier_forward_graph m"
  by (simp add: CustomClassifier_forward_graph_def map_parameters_frame)

lemma forward_graph_set_mode:
  "CustomClassifier_forward_graph (set_mode mode m) = CustomClassifier_forward_graph m"
  by (simp add: CustomClassifier_forward_graph_def set_mode_def)

lemma head_in_named_parameters:
  "(''classifier.1.weight'', weight (linear (classifier m))) \<in> set (named_parameters m)"
  "(''classifier.1.bias'', bias (linear (classifier m))) \<in> set (named_parameters m)"
  by (simp_all add: named_parameters_def)

lemma base_in_named_parameters:
  "(n, p) \<in> set (base_parameters (base_model m)) \<Longrightarrow>
     (''base_model.'' @ n, p) \<in> set (named_parameters m)"
  by (force simp: named_parameters_def)

lemma classifier_shape_map_parameters:
  assumes shape: "classifier_shape m k"
    and keeps: "\<And>n p. (n, p) \<in> set (named_parameters m) \<Longrightarrow> same_shape (data (f n p)) (data p)"
  shows "classifier_shape (map_parameters f m) k"
proof -
  from shape obtain W b where W: "data (weight (linear (classifier m))) = Mat W"
    and b: "data (bias (linear (classifier m))) = Vec b"
    and dims: "length W = k" "length b = k"
    and rows: "list_all (\<lambda>wr. length wr = hidden_size (base_model m)) W"
    by (auto simp: classifier_shape_def split: tensor.splits)
  from keeps [OF head_in_named_parameters(1)] W obtain W' where
    W': "data (f ''classifier.1.weight'' (weight (linear (classifier m)))) = Mat W'"
    and lens: "map length W' = map length W"
    by (cases "data (f ''classifier.1.weight'' (weight (linear (classifier m))))") simp_all
  from keeps [OF head_in_named_parameters(2)] b obtain b' where
    b': "data (f ''classifier.1.bias'' (bias (linear (classifier m)))) = Vec b'"
    and lenb: "length b' = length b"
    by (cases "data (f ''classifier.1.bias'' (bias (linear (classifier m))))") simp_all
  from lens have lw: "length W' = length W"
    by (metis length_map)
  have "list_all (\<lambda>wr. length wr = hidden_size (base_model m)) W'"
  proof -
    have "length (W' ! i) = hidden_size (base_model m)" if "i < length W'" for i
    proof -
      from that lw have "length (W' ! i) = map length W' ! i" "length (W ! i) = map length W ! i"
        by simp_all
      with lens have "length (W' ! i) = length (W ! i)" by simp
      with rows that lw show ?thesis by (simp add: list_all_length)
    qed
    then show ?thesis by (simp add: list_all_length)
  qed
  with W' b' lw lenb dims show ?thesis
    by (simp add: classifier_shape_def map_parameters_frame)
qed

lemma shaped_like_map_parameters:
  assumes shaped: "shaped_like (parameter_values (base_parameters (base_model m))) shapes"
    and keeps: "\<And>n p. (n, p) \<in> set (named_parameters m) \<Longrightarrow> same_shape (data (f n p)) (data p)"
  shows "shaped_like (parameter_values (base_parameters (base_model (map_parameters f m)))) shapes"
proof -
  let ?bp = "base_parameters (base_model m)"
  let ?R = "\<lambda>(n, t) (n0, t0). n = n0 \<and> same_shape t t0"
  from shaped have "list_all2 (\<lambda>x y. ?R (fst x, data (snd x)) y) ?bp shapes"
    by (simp add: shaped_like_def parameter_values_def list_all2_map1 case_prod_beta)
  then have "list_all2 (\<lambda>x y. ?R (fst x, data (f (''base_model.'' @ fst x) (snd x))) y)
               ?bp shapes"
  proof (rule list.rel_mono_strong)
    fix x y assume x: "x \<in> set ?bp" and R: "?R (fst x, data (snd x)) y"
    obtain n p where np: "x = (n, p)" by (cases x)
    obtain n0 t0 where y: "y = (n0, t0)" by (cases y)
    from x np have "(''base_model.'' @ n, p) \<in> set (named_parameters m)"
      by (simp only: base_in_named_parameters)
    then have k: "same_shape (data (f (''base_model.'' @ n) p)) (data p)"
      by (rule keeps)
    from R np y have eq: "n = n0" and sh: "same_shape (data p) t0"
      by simp_all
    from k sh have "same_shape (data (f (''base_model.'' @ n) p)) t0"
      by (rule same_shape_trans)
    with eq np y show "?R (fst x, data (f (''base_model.'' @ fst x) (snd x))) y"
      by simp
  qed
  then show ?thesis
    by (simp add: shaped_like_def parameter_values_def list_all2_map1 case_prod_beta
        map_parameters_frame)
qed

lemma map_parameters_comp:
  "map_parameters f (map_parameters g m) = map_parameters (\<lambda>n p. f n (g n p)) m"
  by (simp add: map_parameters_def case_prod_beta comp_def)

lemma map_parameters_cong:
  assumes "\<And>n p. (n, p) \<in> set (named_parameters m) \<Longrightarrow> f n p = g n p"
  shows "map_parameters f m = map_parameters g m"
proof -
  have "map (\<lambda>(n, p). (n, f (''base_model.'' @ n) p)) (base_parameters (base_model m)) =
        map (\<lambda>(n, p). (n, g (''base_model.'' @ n) p)) (base_parameters (base_model m))"
  proof (rule map_cong [OF refl])
    fix x assume x: "x \<in> set (base_parameters (base_model m))"
    obtain n p where np: "x = (n, p)" by (cases x)
    from x np have "(''base_model.'' @ n, p) \<in> set (named_parameters m)"
      by (simp only: base_in_named_parameters)
    from assms [OF this] np
    show "(case x of (n, p) \<Rightarrow> (n, f (''base_model.'' @ n) p)) =
          (case x of (n, p) \<Rightarrow> (n, g (''base_model.'' @ n) p))"
      by simp
  qed
  with assms [OF head_in_named_parameters(1)] assms [OF head_in_named_parameters(2)]
  show ?thesis
    by (simp add: map_parameters_def)
qed

lemma map_fst_map_snd_update:
  "map fst (map (\<lambda>(n, p). (n, f n p)) xs) = map fst xs"
  by (induction xs) auto

lemma map_of_map_keyed:
  "map_of (map (\<lambda>(k, v). (k, f k v)) xs) k = map_option (f k) (map_of xs k)"
  by (induction xs) auto

lemma state_dict_map_parameters:
  assumes "\<And>n p. (n, p) \<in> set (named_parameters m) \<Longrightarrow> data (f n p) = data p"
  shows "state_dict (map_parameters f m) = state_dict m"
  unfolding state_dict_def parameter_values_def named_parameters_map_parameters map_map
  by (rule map_cong [OF refl]) (auto simp: assms)

lemma state_dict_zero_grad:
  "state_dict (zero_grad opt m) = state_dict m"
  unfolding zero_grad_def by (rule state_dict_map_parameters) simp

text \<open>
  One training step on the parameters: clearing the gradients, the backward pass and the
  optimizer step together do to each parameter, and to the optimizer's state for it, what
  \<open>spec_parameter\<close> says.
\<close>

lemma train_step_model:
  assumes groups: "param_groups opt = map fst (named_parameters m)"
    and rg: "list_all (\<lambda>(n, p). requires_grad p) (named_parameters m)"
  shows "step_parameters lib opt (backward lib graph batch keep (zero_grad opt m)) =
         map_parameters
           (\<lambda>n p. fst (spec_parameter lib (lr opt) graph (state_dict m) batch keep n p
                         (state opt n))) m"
proof -
  let ?z = "\<lambda>n p. if n \<in> set (param_groups opt) then p\<lparr>grad := None\<rparr> else p"
  let ?b = "\<lambda>n p. if n \<in> set graph \<and> requires_grad p
              then p\<lparr>grad := Some (case grad p of
                                     None \<Rightarrow> autograd lib (state_dict m) batch keep n (data p)
                                   | Some old \<Rightarrow>
                                       tensor_add old
                                         (autograd lib (state_dict m) batch keep n (data p)))\<rparr>
              else p"
  let ?s = "\<lambda>n p. if n \<in> set (param_groups opt)
              then (case grad p of
                      None \<Rightarrow> p
                    | Some g \<Rightarrow> p\<lparr>data := fst (adamw_update lib (lr opt) (state opt n) (data p) g)\<rparr>)
              else p"
  have "backward lib graph batch keep (zero_grad opt m) = map_parameters ?b (zero_grad opt m)"
    unfolding backward_def state_dict_zero_grad by (rule refl)
  then have "step_parameters lib opt (backward lib graph batch keep (zero_grad opt m)) =
             map_parameters (\<lambda>n p. ?s n (?b n (?z n p))) m"
    by (simp only: step_parameters_def zero_grad_def map_parameters_comp)
  also have "\<dots> = map_parameters
           (\<lambda>n p. fst (spec_parameter lib (lr opt) graph (state_dict m) batch keep n p
                         (state opt n))) m"
  proof (rule map_parameters_cong)
    fix n p assume mem: "(n, p) \<in> set (named_parameters m)"
    then have "n \<in> set (param_groups opt)"
      by (force simp: groups)
    moreover from mem rg have "requires_grad p"
      by (auto simp: list_all_iff)
    ultimately show "?s n (?b n (?z n p)) =
        fst (spec_parameter lib (lr opt) graph (state_dict m) batch keep n p (state opt n))"
      by (simp add: spec_parameter_def Let_def)
  qed
  finally show ?thesis .
qed

lemma train_step_state:
  assumes groups: "param_groups opt = map fst (named_parameters m)"
    and dist: "distinct (map fst (named_parameters m))"
    and rg: "list_all (\<lambda>(n, p). requires_grad p) (named_parameters m)"
    and mem: "(n, p) \<in> set (named_parameters m)"
  shows "state (step_state lib opt (backward lib graph batch keep (zero_grad opt m))) n =
         snd (spec_parameter lib (lr opt) graph (state_dict m) batch keep n p (state opt n))"
proof -
  let ?z = "\<lambda>n p. if n \<in> set (param_groups opt) then p\<lparr>grad := None\<rparr> else p"
  let ?b = "\<lambda>n p. if n \<in> set graph \<and> requires_grad p
              then p\<lparr>grad := Some (case grad p of
                                     None \<Rightarrow> autograd lib (state_dict m) batch keep n (data p)
                                   | Some old \<Rightarrow>
                                       tensor_add old
                                         (autograd lib (state_dict m) batch keep n (data p)))\<rparr>
              else p"
  have "backward lib graph batch keep (zero_grad opt m) = map_parameters ?b (zero_grad opt m)"
    unfolding backward_def state_dict_zero_grad by (rule refl)
  then have "backward lib graph batch keep (zero_grad opt m) =
             map_parameters (\<lambda>n p. ?b n (?z n p)) m"
    by (simp only: zero_grad_def map_parameters_comp)
  then have "map_of (named_parameters (backward lib graph batch keep (zero_grad opt m))) n =
             map_option (\<lambda>p. ?b n (?z n p)) (map_of (named_parameters m) n)"
    by (simp only: named_parameters_map_parameters map_of_map_keyed)
  moreover from dist mem have "map_of (named_parameters m) n = Some p"
    by (rule map_of_is_SomeI)
  ultimately have look:
    "map_of (named_parameters (backward lib graph batch keep (zero_grad opt m))) n =
       Some (?b n (?z n p))"
    by simp
  from mem have "n \<in> set (param_groups opt)"
    by (force simp: groups)
  moreover from mem rg have "requires_grad p"
    by (auto simp: list_all_iff)
  ultimately show ?thesis
    by (simp add: step_state_def look spec_parameter_def Let_def)
qed

lemma train_step_table:
  assumes groups: "param_groups (optimizer st) = map fst (named_parameters (model st))"
    and dist: "distinct (map fst (named_parameters (model st)))"
    and rg: "list_all (\<lambda>(n, p). requires_grad p) (named_parameters (model st))"
    and m': "model st' = step_parameters lib (optimizer st)
                           (backward lib graph batch keep (zero_grad (optimizer st) (model st)))"
    and o': "optimizer st' = step_state lib (optimizer st)
                           (backward lib graph batch keep (zero_grad (optimizer st) (model st)))"
  shows "table_of st' = spec_batch lib (lr (optimizer st)) graph (table_of st) (batch, keep)"
proof -
  have vals: "table_values (table_of st) = state_dict (model st)"
    by (simp add: table_values_def table_of_def state_dict_def parameter_values_def
        case_prod_beta comp_def)
  have "table_of st' =
        map (\<lambda>(n, p). (n, fst (spec_parameter lib (lr (optimizer st)) graph
                                 (state_dict (model st)) batch keep n p (state (optimizer st) n)),
                       state (optimizer st') n))
          (named_parameters (model st))"
    by (simp add: table_of_def m' train_step_model [OF groups rg]
        named_parameters_map_parameters case_prod_beta comp_def)
  also have "\<dots> =
        map (\<lambda>(n, p). (n, spec_parameter lib (lr (optimizer st)) graph
                            (state_dict (model st)) batch keep n p (state (optimizer st) n)))
          (named_parameters (model st))"
  proof (rule map_cong [OF refl])
    fix x assume x: "x \<in> set (named_parameters (model st))"
    obtain n p where np: "x = (n, p)" by (cases x)
    with x train_step_state [OF groups dist rg, of n p lib graph batch keep] o'
    show "(case x of (n, p) \<Rightarrow>
             (n, fst (spec_parameter lib (lr (optimizer st)) graph (state_dict (model st))
                        batch keep n p (state (optimizer st) n)),
              state (optimizer st') n)) =
          (case x of (n, p) \<Rightarrow>
             (n, spec_parameter lib (lr (optimizer st)) graph (state_dict (model st))
                   batch keep n p (state (optimizer st) n)))"
      by simp
  qed
  also have "\<dots> = spec_batch lib (lr (optimizer st)) graph (table_of st) (batch, keep)"
    unfolding spec_batch_def vals by (simp add: table_of_def case_prod_beta comp_def)
  finally show ?thesis .
qed

text \<open>The shapes and the flags of the parameters after one training step.\<close>

lemma spec_parameter_keeps:
  assumes lib: "library_ok lib k"
  shows "same_shape (data (fst (spec_parameter lib rate graph values batch keep n p s))) (data p)"
    and "requires_grad (fst (spec_parameter lib rate graph values batch keep n p s))
           = requires_grad p"
proof -
  from lib have ag: "\<And>values b kp n t. same_shape (autograd lib values b kp n t) t"
    and upd: "\<And>rate s p g. same_shape g p \<Longrightarrow> same_shape (fst (adamw_update lib rate s p g)) p"
    by (simp_all add: library_ok_def)
  from upd [OF ag]
  show "same_shape (data (fst (spec_parameter lib rate graph values batch keep n p s))) (data p)"
    by (simp add: spec_parameter_def Let_def same_shape_refl)
  show "requires_grad (fst (spec_parameter lib rate graph values batch keep n p s))
           = requires_grad p"
    by (simp add: spec_parameter_def Let_def)
qed

lemma train_step_parts:
  assumes fw: "CustomClassifier_forward (zero_grad (optimizer st) (model st))
                 (bernoulli lib (draws st))
                 (batch_input_ids batch) (batch_attention_mask batch) = Inr logits"
    and ce: "cross_entropy lib logits (batch_labels batch) = Inr loss"
  shows "fst (train_step lib st batch) = Inr ()"
    and "model (snd (train_step lib st batch)) =
           step_parameters lib (optimizer st)
             (backward lib (CustomClassifier_forward_graph (model st)) batch
                (bernoulli lib (draws st)) (zero_grad (optimizer st) (model st)))"
    and "optimizer (snd (train_step lib st batch)) =
           step_state lib (optimizer st)
             (backward lib (CustomClassifier_forward_graph (model st)) batch
                (bernoulli lib (draws st)) (zero_grad (optimizer st) (model st)))"
    and "trace (snd (train_step lib st batch)) = trace st @ batch_events batch"
  using fw ce
  by (simp_all add: train_step_def model_call_def Let_def batch_events_def zero_grad_def
      forward_graph_map_parameters)

lemma train_step_invariant:
  assumes inv: "run_invariant k V shapes names graph rate st" and lib: "library_ok lib k"
    and ok: "batch_ok (batch_input_ids batch) (batch_attention_mask batch)"
    and vocab: "list_all (in_vocab V) (batch_input_ids batch)"
    and len: "length (batch_labels batch) = length (batch_input_ids batch)"
    and labs: "list_all (\<lambda>l. 0 \<le> l \<and> l < int k) (batch_labels batch)"
  shows "\<exists>st'. train_step lib st batch = (Inr (), st')
           \<and> trace st' = trace st @ batch_events batch
           \<and> table_of st' = spec_batch lib rate graph (table_of st) (batch, bernoulli lib (draws st))
           \<and> run_invariant k V shapes names graph rate st'"
proof -
  let ?m = "model st" and ?opt = "optimizer st" and ?keep = "bernoulli lib (draws st)"
  let ?m1 = "zero_grad ?opt ?m"
  let ?f = "\<lambda>n p. fst (spec_parameter lib rate graph (state_dict ?m) batch ?keep n p
                         (state ?opt n))"
  from inv have groups: "param_groups ?opt = names" and rate: "lr ?opt = rate"
    and nm: "map fst (named_parameters ?m) = names" and dist: "distinct names"
    and rg: "list_all (\<lambda>(name, p). requires_grad p) (named_parameters ?m)"
    and graph: "CustomClassifier_forward_graph ?m = graph"
    and shape: "classifier_shape ?m k"
    and shaped: "shaped_like (parameter_values (base_parameters (base_model ?m))) shapes"
    and net: "network_ok V shapes (base_model ?m)"
    by (simp_all add: run_invariant_def)
  \<comment> \<open>after \<open>zero_grad\<close>: the forward pass and the loss\<close>
  have shape1: "classifier_shape ?m1 k"
    unfolding zero_grad_def
    by (rule classifier_shape_map_parameters [OF shape]) (simp add: same_shape_refl)
  have shaped1: "shaped_like (parameter_values (base_parameters (base_model ?m1))) shapes"
    unfolding zero_grad_def
    by (rule shaped_like_map_parameters [OF shaped]) (simp add: same_shape_refl)
  have net1: "network_ok V shapes (base_model ?m1)"
    by (simp add: zero_grad_def network_ok_map_parameters net)
  from CustomClassifier_forward_total_on [OF shape1 net1 shaped1 ok vocab, of ?keep]
  obtain logits where
    fw: "CustomClassifier_forward ?m1 ?keep (batch_input_ids batch) (batch_attention_mask batch)
           = Inr logits"
    by blast
  from CustomClassifier_forward_shape [OF fw shape1] len
  have "length logits = length (batch_labels batch)" "list_all (\<lambda>row. length row = k) logits"
    by simp_all
  with lib labs obtain loss where ce: "cross_entropy lib logits (batch_labels batch) = Inr loss"
    unfolding library_ok_def by blast
  \<comment> \<open>the state after the step\<close>
  obtain r st' where res: "train_step lib st batch = (r, st')"
    by (cases "train_step lib st batch")
  from train_step_parts [OF fw ce] res graph
  have r: "r = Inr ()"
    and m': "model st' = step_parameters lib ?opt (backward lib graph batch ?keep ?m1)"
    and o': "optimizer st' = step_state lib ?opt (backward lib graph batch ?keep ?m1)"
    and tr: "trace st' = trace st @ batch_events batch"
    by simp_all
  have groups': "param_groups ?opt = map fst (named_parameters ?m)"
    by (simp add: groups nm)
  have dist': "distinct (map fst (named_parameters ?m))"
    by (simp add: nm dist)
  have tb: "table_of st' = spec_batch lib rate graph (table_of st) (batch, ?keep)"
    using train_step_table [OF groups' dist' rg m' o'] by (simp add: rate)
  have model': "model st' = map_parameters ?f ?m"
    using train_step_model [OF groups' rg, of lib graph batch ?keep] by (simp add: m' rate)
  have "param_groups (optimizer st') = names" "lr (optimizer st') = rate"
    by (simp_all add: o' step_state_def groups rate)
  moreover have "map fst (named_parameters (model st')) = names"
    unfolding model' named_parameters_map_parameters map_fst_map_snd_update by (rule nm)
  moreover have "list_all (\<lambda>(name, p). requires_grad p) (named_parameters (model st'))"
    using rg
    by (auto simp: model' named_parameters_map_parameters list_all_iff
        spec_parameter_keeps(2) [OF lib])
  moreover have "CustomClassifier_forward_graph (model st') = graph"
    by (simp add: model' forward_graph_map_parameters graph)
  moreover have "classifier_shape (model st') k"
    unfolding model'
    by (rule classifier_shape_map_parameters [OF shape]) (rule spec_parameter_keeps(1) [OF lib])
  moreover have "shaped_like (parameter_values (base_parameters (base_model (model st')))) shapes"
    unfolding model'
    by (rule shaped_like_map_parameters [OF shaped]) (rule spec_parameter_keeps(1) [OF lib])
  moreover have "network_ok V shapes (base_model (model st'))"
    by (simp add: model' network_ok_map_parameters net)
  ultimately have "run_invariant k V shapes names graph rate st'"
    using dist by (simp add: run_invariant_def)
  with res r tr tb show ?thesis
    by simp
qed

lemma batch_of_labels:
  assumes "list_all (\<lambda>r. 0 \<le> label r \<and> label r < int k) raw"
    and "\<And>i. i \<in> set idxs \<Longrightarrow> i < length raw"
  shows "length (batch_labels (batch_of tok L raw idxs)) =
           length (batch_input_ids (batch_of tok L raw idxs))"
    and "list_all (\<lambda>l. 0 \<le> l \<and> l < int k) (batch_labels (batch_of tok L raw idxs))"
  using assms by (auto simp: batch_of_def row_item_def Let_def list_all_iff)

lemma train_batches_invariant:
  assumes lib: "library_ok lib k" and L: "0 < L" and tok: "tokenizer_ok tok V"
    and labels: "list_all (\<lambda>r. 0 \<le> label r \<and> label r < int k) raw"
    and inv: "run_invariant k V shapes names graph rate st"
    and valid: "set (concat chs) \<subseteq> {0..<length raw}"
  shows "\<exists>st' keeps. train_batches lib (GlueDataset_init tok raw L) chs st = (Inr (), st')
           \<and> length keeps = length chs
           \<and> list_all (\<lambda>keep. keep \<in> range (bernoulli lib)) keeps
           \<and> trace st' =
               trace st @ concat (map (\<lambda>idxs. batch_events (batch_of tok L raw idxs)) chs)
           \<and> table_of st' =
               foldl (spec_batch lib rate graph) (table_of st)
                 (zip (map (batch_of tok L raw) chs) keeps)
           \<and> run_invariant k V shapes names graph rate st'"
  using inv valid
proof (induction chs arbitrary: st)
  case Nil
  then show ?case by simp
next
  case (Cons idxs rest)
  let ?batch = "batch_of tok L raw idxs"
  have v: "\<And>i. i \<in> set idxs \<Longrightarrow> i < length raw"
    using Cons.prems(2) by auto
  have fetch: "fetch (GlueDataset_init tok raw L) idxs = Inr ?batch"
    by (rule fetch_init [OF v])
  from train_step_invariant [OF Cons.prems(1) lib batch_of_ok [OF L] batch_of_in_vocab [OF tok]
      batch_of_labels [OF labels v]]
  obtain st1 where step: "train_step lib st ?batch = (Inr (), st1)"
    and tr1: "trace st1 = trace st @ batch_events ?batch"
    and tb1: "table_of st1 =
        spec_batch lib rate graph (table_of st) (?batch, bernoulli lib (draws st))"
    and inv1: "run_invariant k V shapes names graph rate st1"
    by blast
  from Cons.IH [OF inv1] Cons.prems(2) obtain st' keeps where
    rest: "train_batches lib (GlueDataset_init tok raw L) rest st1 = (Inr (), st')"
    and len: "length keeps = length rest"
    and ks: "list_all (\<lambda>keep. keep \<in> range (bernoulli lib)) keeps"
    and tr': "trace st' =
        trace st1 @ concat (map (\<lambda>idxs. batch_events (batch_of tok L raw idxs)) rest)"
    and tb': "table_of st' =
        foldl (spec_batch lib rate graph) (table_of st1)
          (zip (map (batch_of tok L raw) rest) keeps)"
    and inv': "run_invariant k V shapes names graph rate st'"
    by auto
  let ?keeps = "bernoulli lib (draws st) # keeps"
  have "train_batches lib (GlueDataset_init tok raw L) (idxs # rest) st = (Inr (), st')"
    using fetch step rest by simp
  moreover have "length ?keeps = length (idxs # rest)"
    by (simp add: len)
  moreover have "list_all (\<lambda>keep. keep \<in> range (bernoulli lib)) ?keeps"
    by (simp add: ks)
  moreover have "trace st' =
      trace st @ concat (map (\<lambda>idxs. batch_events (batch_of tok L raw idxs)) (idxs # rest))"
    by (simp add: tr' tr1)
  moreover have "table_of st' =
      foldl (spec_batch lib rate graph) (table_of st)
        (zip (map (batch_of tok L raw) (idxs # rest)) ?keeps)"
    by (simp add: tb' tb1)
  ultimately show ?case
    using inv' by blast
qed

lemma run_invariant_frame:
  assumes "run_invariant k V shapes names graph rate st"
  shows "run_invariant k V shapes names graph rate
           (st\<lparr>model := set_mode mode (model st), trace := tr\<rparr>)"
    and "run_invariant k V shapes names graph rate (st\<lparr>draws := d\<rparr>)"
    and "run_invariant k V shapes names graph rate (st\<lparr>trace := tr\<rparr>)"
  using assms
  by (simp_all add: run_invariant_def named_parameters_set_mode classifier_shape_set_mode
      network_ok_set_mode forward_graph_set_mode set_mode_fields)

lemma train_epoch_invariant:
  assumes lib: "library_ok lib k" and L: "0 < L" and bs: "0 < bs" and tok: "tokenizer_ok tok V"
    and labels: "list_all (\<lambda>r. 0 \<le> label r \<and> label r < int k) raw"
    and inv: "run_invariant k V shapes names graph rate st"
  shows "\<exists>st' order steps.
           train_epoch lib \<lparr>dataset = GlueDataset_init tok raw L, batch_size = bs, shuffle = True\<rparr>
             st epoch = (Inr (), st')
           \<and> distinct order \<and> set order = {0..<length raw}
           \<and> map fst steps = map (batch_of tok L raw) (chunks bs order)
           \<and> list_all (\<lambda>(batch, keep). keep \<in> range (bernoulli lib)) steps
           \<and> trace st' = trace st @ epoch_events (map fst steps) epoch
           \<and> table_of st' = foldl (spec_batch lib rate graph) (table_of st) steps
           \<and> run_invariant k V shapes names graph rate st'"
proof -
  let ?loader = "\<lparr>dataset = GlueDataset_init tok raw L, batch_size = bs, shuffle = True\<rparr>"
  let ?st1 = "st\<lparr>model := set_mode True (model st), trace := trace st @ [ModelTrain]\<rparr>"
  let ?order = "randperm lib (draws ?st1) (length raw)"
  let ?st2 = "?st1\<lparr>draws := draws ?st1 + 1\<rparr>"
  have s: "sampler lib ?loader ?st1 = (?order, ?st2)"
    by (simp add: sampler_def GlueDataset_init_len)
  from lib have perm: "distinct ?order" "set ?order = {0..<length raw}"
    by (simp_all add: library_ok_def)
  have inv2: "run_invariant k V shapes names graph rate ?st2"
    by (intro run_invariant_frame inv)
  have tb2: "table_of ?st2 = table_of st"
    by (simp add: table_of_def named_parameters_set_mode)
  have c: "concat (chunks bs ?order) = ?order"
    by (rule chunks_concat [OF bs])
  have valid: "set (concat (chunks bs ?order)) \<subseteq> {0..<length raw}"
    by (simp only: c perm(2) subset_refl)
  from train_batches_invariant [where chs = "chunks bs ?order", OF lib L tok labels inv2 valid]
  obtain st3 keeps where
    run: "train_batches lib (GlueDataset_init tok raw L) (chunks bs ?order) ?st2 = (Inr (), st3)"
    and len: "length keeps = length (chunks bs ?order)"
    and ks: "list_all (\<lambda>keep. keep \<in> range (bernoulli lib)) keeps"
    and tr3: "trace st3 = trace ?st2
        @ concat (map (\<lambda>idxs. batch_events (batch_of tok L raw idxs)) (chunks bs ?order))"
    and tb3: "table_of st3 =
        foldl (spec_batch lib rate graph) (table_of ?st2)
          (zip (map (batch_of tok L raw) (chunks bs ?order)) keeps)"
    and inv3: "run_invariant k V shapes names graph rate st3"
    by (elim exE conjE) (rule that, assumption+)
  let ?st' = "st3\<lparr>trace := trace st3 @ [EpochCompleted (epoch + 1)]\<rparr>"
  let ?steps = "zip (map (batch_of tok L raw) (chunks bs ?order)) keeps"
  have fsts: "map fst ?steps = map (batch_of tok L raw) (chunks bs ?order)"
    using len by (simp add: map_fst_zip)
  have "train_epoch lib ?loader st epoch = (Inr (), ?st')"
    using run by (simp add: train_epoch_def s Let_def)
  moreover have "list_all (\<lambda>(batch, keep). keep \<in> range (bernoulli lib)) ?steps"
    using ks by (auto simp: list_all_iff dest: set_zip_rightD)
  moreover have "trace ?st' = trace st @ epoch_events (map fst ?steps) epoch"
    unfolding fsts by (simp add: tr3 epoch_events_def comp_def)
  moreover have "table_of ?st' = table_of st3"
    by (simp add: table_of_def)
  then have "table_of ?st' = foldl (spec_batch lib rate graph) (table_of st) ?steps"
    by (simp only: tb3 tb2)
  moreover have "run_invariant k V shapes names graph rate ?st'"
    by (intro run_invariant_frame inv3)
  ultimately show ?thesis
    using perm fsts by blast
qed

lemma train_epochs_invariant:
  assumes lib: "library_ok lib k" and L: "0 < L" and bs: "0 < bs" and tok: "tokenizer_ok tok V"
    and labels: "list_all (\<lambda>r. 0 \<le> label r \<and> label r < int k) raw"
    and inv: "run_invariant k V shapes names graph rate st"
  shows "\<exists>st' orders epochs.
           train_epochs lib \<lparr>dataset = GlueDataset_init tok raw L, batch_size = bs, shuffle = True\<rparr>
             numbers st = (Inr (), st')
           \<and> length orders = length numbers
           \<and> list_all (\<lambda>order. distinct order \<and> set order = {0..<length raw}) orders
           \<and> map (map fst) epochs = map (\<lambda>order. map (batch_of tok L raw) (chunks bs order)) orders
           \<and> list_all (list_all (\<lambda>(batch, keep). keep \<in> range (bernoulli lib))) epochs
           \<and> trace st' =
               trace st @ concat (map (\<lambda>(epoch, steps). epoch_events (map fst steps) epoch)
                                  (zip numbers epochs))
           \<and> table_of st' = foldl (spec_batch lib rate graph) (table_of st) (concat epochs)
           \<and> run_invariant k V shapes names graph rate st'"
  using inv
proof (induction numbers arbitrary: st)
  case Nil
  have "train_epochs lib
          \<lparr>dataset = GlueDataset_init tok raw L, batch_size = bs, shuffle = True\<rparr> [] st
        = (Inr (), st)"
    by simp
  moreover have "length ([] :: nat list list) = length ([] :: nat list)"
    by simp
  moreover have "map (map fst) ([] :: (Batch \<times> (nat \<Rightarrow> nat \<Rightarrow> bool)) list list) =
                 map (\<lambda>order. map (batch_of tok L raw) (chunks bs order)) []"
    by simp
  moreover have "trace st =
      trace st @ concat (map (\<lambda>(epoch, steps). epoch_events (map fst steps) epoch)
                          (zip [] ([] :: (Batch \<times> (nat \<Rightarrow> nat \<Rightarrow> bool)) list list)))"
    by simp
  moreover have "table_of st = foldl (spec_batch lib rate graph) (table_of st)
                   (concat ([] :: (Batch \<times> (nat \<Rightarrow> nat \<Rightarrow> bool)) list list))"
    by simp
  moreover have "list_all (\<lambda>order. distinct order \<and> set order = {0..<length raw}) []"
    "list_all (list_all (\<lambda>(batch, keep). keep \<in> range (bernoulli lib))) []"
    by simp_all
  ultimately show ?case
    using Nil by blast
next
  case (Cons epoch rest)
  let ?loader = "\<lparr>dataset = GlueDataset_init tok raw L, batch_size = bs, shuffle = True\<rparr>"
  from train_epoch_invariant [OF lib L bs tok labels Cons.prems, where epoch = epoch]
  obtain st1 order steps where
    first: "train_epoch lib ?loader st epoch = (Inr (), st1)"
    and perm: "distinct order" "set order = {0..<length raw}"
    and fs1: "map fst steps = map (batch_of tok L raw) (chunks bs order)"
    and ks1: "list_all (\<lambda>(batch, keep). keep \<in> range (bernoulli lib)) steps"
    and tr1: "trace st1 = trace st @ epoch_events (map fst steps) epoch"
    and tb1: "table_of st1 = foldl (spec_batch lib rate graph) (table_of st) steps"
    and inv1: "run_invariant k V shapes names graph rate st1"
    by (elim exE conjE) (rule that, assumption+)
  from Cons.IH [OF inv1] obtain st' orders epochs where
    more: "train_epochs lib ?loader rest st1 = (Inr (), st')"
    and len: "length orders = length rest"
    and perms: "list_all (\<lambda>order. distinct order \<and> set order = {0..<length raw}) orders"
    and fss: "map (map fst) epochs =
        map (\<lambda>order. map (batch_of tok L raw) (chunks bs order)) orders"
    and kss: "list_all (list_all (\<lambda>(batch, keep). keep \<in> range (bernoulli lib))) epochs"
    and tr': "trace st' =
        trace st1 @ concat (map (\<lambda>(epoch, steps). epoch_events (map fst steps) epoch)
                             (zip rest epochs))"
    and tb': "table_of st' = foldl (spec_batch lib rate graph) (table_of st1) (concat epochs)"
    and inv': "run_invariant k V shapes names graph rate st'"
    by (elim exE conjE) (rule that, assumption+)
  have "train_epochs lib ?loader (epoch # rest) st = (Inr (), st')"
    by (simp add: first more)
  moreover have "length (order # orders) = length (epoch # rest)"
    by (simp add: len)
  moreover have "list_all (\<lambda>order. distinct order \<and> set order = {0..<length raw})
                   (order # orders)"
    by (simp add: perm perms)
  moreover have "map (map fst) (steps # epochs) =
      map (\<lambda>order. map (batch_of tok L raw) (chunks bs order)) (order # orders)"
    by (simp add: fs1 fss)
  moreover have "list_all (list_all (\<lambda>(batch, keep). keep \<in> range (bernoulli lib)))
                   (steps # epochs)"
    by (simp add: ks1 kss)
  moreover have "trace st' =
      trace st @ concat (map (\<lambda>(epoch, steps). epoch_events (map fst steps) epoch)
                          (zip (epoch # rest) (steps # epochs)))"
    by (simp add: tr' tr1)
  moreover have "table_of st' =
      foldl (spec_batch lib rate graph) (table_of st) (concat (steps # epochs))"
    by (simp add: tb' tb1)
  ultimately show ?case
    using inv' by blast
qed

lemma from_pretrained_names:
  "map fst (named_parameters
     (CustomClassifier_init (from_pretrained hs weights arch reads) k w0 b0)) =
     map (\<lambda>(n, t). ''base_model.'' @ n) weights @ [''classifier.1.weight'', ''classifier.1.bias'']"
  by (simp add: named_parameters_def CustomClassifier_init_def from_pretrained_def
      case_prod_beta comp_def)

lemma from_pretrained_values:
  "parameter_values (base_parameters (from_pretrained hs weights arch reads)) = weights"
  by (simp add: parameter_values_def from_pretrained_def new_parameter_def case_prod_beta
      comp_def)

lemma parameter_names_distinct:
  assumes "distinct (map fst weights)"
  shows "distinct (map (\<lambda>(n, t). ''base_model.'' @ n) weights
                   @ [''classifier.1.weight'', ''classifier.1.bias''])"
proof -
  have "map (\<lambda>(n, t). ''base_model.'' @ n) weights = map ((@) ''base_model.'') (map fst weights)"
    by (simp add: case_prod_beta comp_def)
  moreover from assms have "distinct (map ((@) ''base_model.'') (map fst weights))"
    by (simp add: distinct_map inj_on_def)
  ultimately have "distinct (map (\<lambda>(n, t). ''base_model.'' @ n) weights)"
    by (simp only:)
  then show ?thesis
    by auto
qed

lemma initial_state_invariant:
  assumes "network_ok V weights (from_pretrained hs weights arch reads)"
    and "distinct (map fst weights)"
  shows "run_invariant num_labels V weights
           (map (\<lambda>(n, t). ''base_model.'' @ n) weights
            @ [''classifier.1.weight'', ''classifier.1.bias''])
           (map (\<lambda>n. ''base_model.'' @ n) reads
            @ [''classifier.1.weight'', ''classifier.1.bias''])
           (5 / 100000)
           (initial_state lib (from_pretrained hs weights arch reads) w0 b0)"
proof -
  let ?base = "from_pretrained hs weights arch reads"
  let ?m = "CustomClassifier_init ?base num_labels w0 b0"
  have "list_all (\<lambda>(name, p). requires_grad p) (named_parameters ?m)"
    by (auto simp: named_parameters_def CustomClassifier_init_def from_pretrained_def
        Linear_init_def new_parameter_def list_all_iff)
  moreover have "network_ok V weights (base_model ?m)"
    using assms(1) by (simp add: CustomClassifier_init_def)
  moreover have "shaped_like (parameter_values (base_parameters (base_model ?m))) weights"
    by (simp add: CustomClassifier_init_def from_pretrained_values shaped_like_refl)
  moreover have "CustomClassifier_forward_graph ?m =
      map (\<lambda>n. ''base_model.'' @ n) reads @ [''classifier.1.weight'', ''classifier.1.bias'']"
    by (simp add: CustomClassifier_forward_graph_def CustomClassifier_init_def
        from_pretrained_def)
  ultimately show ?thesis
    using parameter_names_distinct [OF assms(2)]
    by (simp add: run_invariant_def initial_state_def Let_def AdamW_init_def
        from_pretrained_names CustomClassifier_init_shape)
qed

lemma training_loop_invariant:
  assumes lib: "library_ok lib num_labels"
    and net: "network_ok V weights (from_pretrained hs weights arch reads)"
    and tok: "tokenizer_ok tok V"
    and dist: "distinct (map fst weights)"
    and labels: "list_all (\<lambda>r. 0 \<le> label r \<and> label r < int num_labels) raw"
    and L: "0 < L" and bs: "0 < bs"
  shows "\<exists>st' orders epochs.
           training_loop lib
             \<lparr>dataset = GlueDataset_init tok raw L, batch_size = bs, shuffle = True\<rparr>
             (initial_state lib (from_pretrained hs weights arch reads) w0 b0) = (Inr (), st')
           \<and> length orders = 3
           \<and> list_all (\<lambda>order. distinct order \<and> set order = {0..<length raw}) orders
           \<and> map (map fst) epochs = map (\<lambda>order. map (batch_of tok L raw) (chunks bs order)) orders
           \<and> list_all (list_all (\<lambda>(batch, keep). keep \<in> range (bernoulli lib))) epochs
           \<and> trace st' =
               concat (map (\<lambda>(epoch, steps). epoch_events (map fst steps) epoch)
                          (zip [0..<3] epochs))
           \<and> table_of st' =
               foldl (spec_batch lib (5 / 100000)
                        (map (\<lambda>n. ''base_model.'' @ n) reads
                         @ [''classifier.1.weight'', ''classifier.1.bias'']))
                 (table_of (initial_state lib (from_pretrained hs weights arch reads) w0 b0))
                 (concat epochs)
           \<and> run_invariant num_labels V weights
               (map (\<lambda>(n, t). ''base_model.'' @ n) weights
                @ [''classifier.1.weight'', ''classifier.1.bias''])
               (map (\<lambda>n. ''base_model.'' @ n) reads
                @ [''classifier.1.weight'', ''classifier.1.bias''])
               (5 / 100000) st'"
proof -
  have "trace (initial_state lib (from_pretrained hs weights arch reads) w0 b0) = []"
    by (simp add: initial_state_def Let_def)
  with train_epochs_invariant [OF lib L bs tok labels initial_state_invariant [OF net dist],
      where numbers = "[0..<num_epochs]" and lib1 = lib and ?w0.1 = w0 and ?b0.1 = b0]
  show ?thesis
    by (simp add: training_loop_def num_epochs_def)
qed

lemma same_shape_tensor_add:
  assumes "same_shape g p"
  shows "same_shape (tensor_add p g) p"
proof (cases p)
  case (Vec a)
  with assms obtain b where "g = Vec b" "length b = length a"
    by (cases g) simp_all
  with Vec show ?thesis by simp
next
  case (Mat a)
  with assms obtain b where g: "g = Mat b" and lens: "map length b = map length a"
    by (cases g) simp_all
  from lens have len: "length b = length a"
    by (metis length_map)
  have "map length (map (\<lambda>(r, s). map (\<lambda>(x, y). x + y) (zip r s)) (zip a b)) = map length a"
  proof (rule nth_equalityI)
    show "length (map length (map (\<lambda>(r, s). map (\<lambda>(x, y). x + y) (zip r s)) (zip a b))) =
          length (map length a)"
      by (simp add: len)
  next
    fix i assume "i < length (map length (map (\<lambda>(r, s). map (\<lambda>(x, y). x + y) (zip r s)) (zip a b)))"
    with len have i: "i < length a" "i < length b" by simp_all
    then have "length (b ! i) = map length b ! i" "length (a ! i) = map length a ! i"
      by simp_all
    with lens have "length (b ! i) = length (a ! i)" by simp
    with i show "map length (map (\<lambda>(r, s). map (\<lambda>(x, y). x + y) (zip r s)) (zip a b)) ! i =
                 map length a ! i"
      by simp
  qed
  with Mat g show ?thesis by simp
qed

section \<open>Properties of the whole run\<close>

lemma state_dict_structure:
  "state_dict m =
     map (\<lambda>(n, p). (''base_model.'' @ n, data p)) (base_parameters (base_model m))
     @ head_state_dict m"
  by (simp add: state_dict_def parameter_values_def named_parameters_def head_state_dict_def
      case_prod_beta comp_def)

lemma state_dict_names:
  "map fst (state_dict m) = map fst (named_parameters m)"
  by (simp add: state_dict_def parameter_values_def case_prod_beta comp_def)

lemma state_dict_set_mode:
  "state_dict (set_mode mode m) = state_dict m"
  by (simp add: state_dict_def named_parameters_set_mode)

text \<open>The names of the parameters stay what they are, however the loops end.\<close>

lemma names_map_parameters:
  "map fst (named_parameters (map_parameters f m)) = map fst (named_parameters m)"
  unfolding named_parameters_map_parameters map_fst_map_snd_update by (rule refl)

lemma train_step_names:
  "map fst (named_parameters (model (snd (train_step lib st batch)))) =
     map fst (named_parameters (model st))"
proof -
  let ?st1 = "st\<lparr>model := zero_grad (optimizer st) (model st), trace := trace st @ [ZeroGrad]\<rparr>"
  have z: "map fst (named_parameters (zero_grad (optimizer st) (model st))) =
           map fst (named_parameters (model st))"
    by (simp add: zero_grad_def names_map_parameters)
  obtain r st2 where mc:
    "model_call lib ?st1 (batch_input_ids batch) (batch_attention_mask batch) = (r, st2)"
    by (cases "model_call lib ?st1 (batch_input_ids batch) (batch_attention_mask batch)")
  with model_call_model [of lib ?st1 "batch_input_ids batch" "batch_attention_mask batch"]
    model_call_optimizer [of lib ?st1 "batch_input_ids batch" "batch_attention_mask batch"]
  have m2: "model st2 = zero_grad (optimizer st) (model st)"
    by simp
  show ?thesis
  proof (cases r)
    case (Inl e)
    with mc m2 z show ?thesis
      by (simp add: train_step_def Let_def)
  next
    case logits: (Inr logits)
    show ?thesis
    proof (cases "cross_entropy lib logits (batch_labels batch)")
      case (Inl e)
      with mc logits m2 z show ?thesis
        by (simp add: train_step_def Let_def)
    next
      case (Inr loss)
      with mc logits m2 z show ?thesis
        by (simp add: train_step_def Let_def step_parameters_def backward_def
            names_map_parameters)
    qed
  qed
qed

lemma train_batches_names:
  "map fst (named_parameters (model (snd (train_batches lib ds chs st)))) =
     map fst (named_parameters (model st))"
proof (induction chs arbitrary: st)
  case Nil
  show ?case by simp
next
  case (Cons idxs rest)
  show ?case
  proof (cases "fetch ds idxs")
    case (Inl e)
    then show ?thesis by simp
  next
    case (Inr batch)
    obtain r st1 where step: "train_step lib st batch = (r, st1)"
      by (cases "train_step lib st batch")
    with train_step_names [of lib st batch]
    have n1: "map fst (named_parameters (model st1)) = map fst (named_parameters (model st))"
      by simp
    show ?thesis
    proof (cases r)
      case (Inl e)
      with Inr step n1 show ?thesis by simp
    next
      case u: (Inr u)
      with Inr step n1 Cons.IH [of st1] show ?thesis by simp
    qed
  qed
qed

lemma train_epoch_names:
  "map fst (named_parameters (model (snd (train_epoch lib train_loader st epoch)))) =
     map fst (named_parameters (model st))"
proof -
  let ?st1 = "st\<lparr>model := set_mode True (model st), trace := trace st @ [ModelTrain]\<rparr>"
  obtain order st2 where s: "sampler lib train_loader ?st1 = (order, st2)"
    by (cases "sampler lib train_loader ?st1")
  with sampler_model [of lib train_loader ?st1]
  have m2: "model st2 = set_mode True (model st)"
    by simp
  obtain r st3 where run:
    "train_batches lib (dataset train_loader) (chunks (batch_size train_loader) order) st2
       = (r, st3)"
    by (cases "train_batches lib (dataset train_loader)
                 (chunks (batch_size train_loader) order) st2")
  with train_batches_names
    [of lib "dataset train_loader" "chunks (batch_size train_loader) order" st2] m2
  have "map fst (named_parameters (model st3)) = map fst (named_parameters (model st))"
    by (simp add: named_parameters_set_mode)
  with s run show ?thesis
    by (cases r) (simp_all add: train_epoch_def Let_def)
qed

lemma train_epochs_names:
  "map fst (named_parameters (model (snd (train_epochs lib train_loader numbers st)))) =
     map fst (named_parameters (model st))"
proof (induction numbers arbitrary: st)
  case Nil
  show ?case by simp
next
  case (Cons epoch rest)
  obtain r st1 where first: "train_epoch lib train_loader st epoch = (r, st1)"
    by (cases "train_epoch lib train_loader st epoch")
  with train_epoch_names [of lib train_loader st epoch]
  have n1: "map fst (named_parameters (model st1)) = map fst (named_parameters (model st))"
    by simp
  show ?case
  proof (cases r)
    case (Inl e)
    with first n1 show ?thesis by simp
  next
    case (Inr u)
    with first n1 Cons.IH [of st1] show ?thesis by simp
  qed
qed

lemma initial_state_names:
  "map fst (named_parameters (model (initial_state lib base w0 b0))) =
     map (\<lambda>(n, p). ''base_model.'' @ n) (base_parameters base)
     @ [''classifier.1.weight'', ''classifier.1.bias'']"
  by (simp add: initial_state_def Let_def named_parameters_def CustomClassifier_init_def
      case_prod_beta comp_def)

lemma training_loop_names:
  "map fst (named_parameters (model (snd (training_loop lib train_loader
                                             (initial_state lib base w0 b0))))) =
     map (\<lambda>(n, p). ''base_model.'' @ n) (base_parameters base)
     @ [''classifier.1.weight'', ''classifier.1.bias'']"
  unfolding training_loop_def train_epochs_names by (rule initial_state_names)

text \<open>A run that completes went through every cell.\<close>

lemma notebook_completed:
  assumes "notebook lib tok base w0 b0 raw_train raw_validation fs = (Inr (acc, st), fs')"
  shows "\<exists>train_loader eval_loader st1.
           DataLoader_init
             (GlueDataset_init (set_pad_token_to_eos tok) raw_train default_max_length) 8 True
             = Inr train_loader
           \<and> DataLoader_init
               (GlueDataset_init (set_pad_token_to_eos tok) raw_validation default_max_length)
               8 False = Inr eval_loader
           \<and> training_loop lib train_loader (initial_state lib base w0 b0) = (Inr (), st1)
           \<and> evaluation lib eval_loader st1 = (Inr acc, st)
           \<and> fs' = save_model st fs"
  using assms
  by (auto simp: notebook_def Let_def split: sum.splits prod.splits)

lemma DataLoader_init_ok:
  assumes "0 < bs" and "shuf \<longrightarrow> raw \<noteq> []"
  shows "DataLoader_init (GlueDataset_init tok raw n) bs shuf =
           Inr \<lparr>dataset = GlueDataset_init tok raw n, batch_size = bs, shuffle = shuf\<rparr>"
  using assms by (auto simp: DataLoader_init_def GlueDataset_init_len)

text \<open>
  A run on two non-empty splits, with a library, a network and a tokenizer that keep their
  contracts, completes and saves a file.
\<close>

lemma notebook_run:
  assumes lib: "library_ok lib num_labels"
    and net: "network_ok V weights (from_pretrained hs weights arch reads)"
    and tok: "tokenizer_ok (set_pad_token_to_eos tok) V"
    and dist: "distinct (map fst weights)"
    and labels: "list_all (\<lambda>r. 0 \<le> label r \<and> label r < int num_labels) raw_train"
    and train_ne: "raw_train \<noteq> []" and validation_ne: "raw_validation \<noteq> []"
  shows "\<exists>acc st.
           notebook lib tok (from_pretrained hs weights arch reads) w0 b0 raw_train
             raw_validation fs =
             (Inr (acc, st), fs(''./my_custom_model_falcon.pt'' \<mapsto> state_dict (model st)))"
proof -
  let ?tok = "set_pad_token_to_eos tok"
  let ?base = "from_pretrained hs weights arch reads"
  let ?train = "\<lparr>dataset = GlueDataset_init ?tok raw_train default_max_length,
                  batch_size = 8, shuffle = True\<rparr>"
  let ?eval = "\<lparr>dataset = GlueDataset_init ?tok raw_validation default_max_length,
                 batch_size = 8, shuffle = False\<rparr>"
  let ?names = "map (\<lambda>(n, t). ''base_model.'' @ n) weights
                @ [''classifier.1.weight'', ''classifier.1.bias'']"
  let ?graph = "map (\<lambda>n. ''base_model.'' @ n) reads
                @ [''classifier.1.weight'', ''classifier.1.bias'']"
  have L: "0 < default_max_length" and bs: "(0 :: nat) < 8"
    by (simp_all add: default_max_length_def)
  have tl: "DataLoader_init (GlueDataset_init ?tok raw_train default_max_length) 8 True
              = Inr ?train"
    by (rule DataLoader_init_ok) (simp_all add: train_ne)
  have el: "DataLoader_init (GlueDataset_init ?tok raw_validation default_max_length) 8 False
              = Inr ?eval"
    by (rule DataLoader_init_ok) simp_all
  from training_loop_invariant [OF lib net tok dist labels L bs, where ?w0.0 = w0
      and ?b0.0 = b0]
  obtain st1 where
    train: "training_loop lib ?train (initial_state lib ?base w0 b0) = (Inr (), st1)"
    and inv: "run_invariant num_labels V weights ?names ?graph (5 / 100000) st1"
    by blast
  from inv have shape: "classifier_shape (model st1) num_labels"
    and shaped: "shaped_like (parameter_values (base_parameters (base_model (model st1)))) weights"
    and net1: "network_ok V weights (base_model (model st1))"
    by (simp_all add: run_invariant_def)
  have n: "0 < num_labels"
    by (simp add: num_labels_def)
  obtain r st2 where ev: "evaluation lib ?eval st1 = (r, st2)"
    by (cases "evaluation lib ?eval st1")
  from evaluation_result [OF shape n net1 shaped tok L bs, of lib raw_validation] ev
    validation_ne
  obtain acc where r: "r = Inr acc"
    by simp
  have "notebook lib tok ?base w0 b0 raw_train raw_validation fs =
          (Inr (acc, st2), fs(''./my_custom_model_falcon.pt'' \<mapsto> state_dict (model st2)))"
    by (simp add: notebook_def Let_def tl el train ev r save_model_def torch_save_def)
  then show ?thesis
    by blast
qed

text \<open>On an empty training split the shuffling loader cannot be built, and nothing is saved.\<close>

lemma notebook_empty_train:
  "notebook lib tok base w0 b0 [] raw_validation fs = (Inl ValueError, fs)"
  by (simp add: notebook_def Let_def DataLoader_init_def GlueDataset_init_len)

section \<open>Properties of the concrete inputs\<close>

lemma example_model_shape:
  "classifier_shape example_model num_labels"
  unfolding example_model_def by (rule CustomClassifier_init_shape)

lemma example_base_architecture_ok:
  "architecture_ok example_base"
  by (auto simp: architecture_ok_def example_base_def from_pretrained_def example_network_def
      list_all_iff)

lemma example_base_ok:
  "architecture_ok (base_model example_model)"
  using example_base_architecture_ok by (simp add: example_model_def CustomClassifier_init_def)

lemma example_network_ok:
  "network_ok V shapes (from_pretrained 2 weights example_network reads)"
  by (auto simp: network_ok_def from_pretrained_def example_network_def list_all_iff)

lemma of_char_in_vocab:
  "0 \<le> (of_char c :: int) \<and> (of_char c :: int) < 256"
proof -
  have "(of_char c :: int) = int (of_char c)"
    by (simp only: of_nat_of_char)
  moreover have "(of_char c :: nat) < 256"
    by simp
  ultimately show ?thesis
    by linarith
qed

lemma example_tokenizer_ok:
  "tokenizer_ok example_tokenizer 256"
  "tokenizer_ok (set_pad_token_to_eos example_tokenizer) 256"
  using of_char_in_vocab
  by (simp_all add: tokenizer_ok_def in_vocab_def example_tokenizer_def set_pad_token_to_eos_def
      list_all_iff)

lemma example_lib_ok:
  "library_ok example_lib num_labels"
  by (simp add: library_ok_def example_lib_def same_shape_refl same_shape_tensor_add)

lemma example_raw_labels:
  "list_all (\<lambda>r. 0 \<le> label r \<and> label r < int num_labels) example_raw"
  by (simp add: example_raw_def num_labels_def)

lemma example_notebook_run:
  "\<exists>acc st. example_run =
     (Inr (acc, st), [''./my_custom_model_falcon.pt'' \<mapsto> state_dict (model st)])"
proof -
  have ne: "example_raw \<noteq> []"
    by (simp add: example_raw_def)
  have dist: "distinct (map fst [(''w'', Vec [1, 2 :: real])])"
    by simp
  from notebook_run [OF example_lib_ok example_network_ok example_tokenizer_ok(2) dist
      example_raw_labels ne ne, where ?w0.0 = "\<lambda>i j. real (i + j)" and ?b0.0 = real
        and fs = Map.empty and reads = "[''w'']"]
  show ?thesis
    by (simp only: example_run_def example_base_def)
qed





section \<open>Claims about the dataset wrapper\<close>

text \<open>
  Claim C1. Every record of a dataset wrapper built from labeled examples has an input-id
  sequence and an attention mask of exactly the configured maximum length, whatever the
  lengths of the two sentences (so also with the default maximum length of 128).
\<close>

theorem GlueDataset_fixed_length:
  assumes "i < length raw"
  shows "\<exists>item.
      GlueDataset_getitem (GlueDataset_init tok raw max_length) (int i) = Inr item
      \<and> length (item_input_ids item) = max_length
      \<and> length (item_attention_mask item) = max_length"
  using GlueDataset_getitem_valid [OF assms, of tok max_length] by auto

theorem GlueDataset_fixed_length_witness:
  "(0::nat) < length example_raw \<and>
   (\<exists>item.
      GlueDataset_getitem (GlueDataset_init example_tokenizer example_raw default_max_length)
        (int 0) = Inr item
      \<and> length (item_input_ids item) = default_max_length
      \<and> length (item_attention_mask item) = default_max_length)"
proof -
  have h: "(0::nat) < length example_raw"
    by (simp add: example_raw_def)
  from h GlueDataset_fixed_length [OF h, of example_tokenizer default_max_length]
  show ?thesis by simp
qed

text \<open>
  Claim C7. The size accessor of a dataset wrapper returns the number of input records it
  was built from, and the record read at a valid index \<open>i\<close> carries the label of the
  \<open>i\<close>-th input record.
\<close>

theorem GlueDataset_len_and_labels:
  "GlueDataset_len (GlueDataset_init tok raw max_length) = length raw
   \<and> (\<forall>i < length raw. \<exists>item.
         GlueDataset_getitem (GlueDataset_init tok raw max_length) (int i) = Inr item
         \<and> item_labels item = label (raw ! i))"
proof (intro conjI allI impI)
  show "GlueDataset_len (GlueDataset_init tok raw max_length) = length raw"
    by (rule GlueDataset_init_len)
next
  fix i assume "i < length raw"
  from GlueDataset_getitem_valid [OF this, of tok max_length]
  show "\<exists>item.
         GlueDataset_getitem (GlueDataset_init tok raw max_length) (int i) = Inr item
         \<and> item_labels item = label (raw ! i)"
    by auto
qed

theorem GlueDataset_len_and_labels_witness:
  "GlueDataset_len (GlueDataset_init example_tokenizer example_raw 4) = 2
   \<and> (\<exists>item.
         GlueDataset_getitem (GlueDataset_init example_tokenizer example_raw 4) 1 = Inr item
         \<and> item_labels item = 0)"
proof -
  have "(1::nat) < length example_raw"
    by (simp add: example_raw_def)
  with GlueDataset_len_and_labels [of example_tokenizer example_raw 4]
  have "GlueDataset_len (GlueDataset_init example_tokenizer example_raw 4) = length example_raw
    \<and> (\<exists>item.
         GlueDataset_getitem (GlueDataset_init example_tokenizer example_raw 4) (int 1) = Inr item
         \<and> item_labels item = label (example_raw ! 1))"
    by blast
  then show ?thesis
    by (simp add: example_raw_def)
qed

text \<open>
  Claim C8. At every index greater than or equal to the size of the collection the indexed
  accessor raises IndexError and returns no record.
\<close>

theorem GlueDataset_getitem_out_of_range:
  assumes "int (GlueDataset_len self) \<le> idx"
  shows "GlueDataset_getitem self idx = Inl IndexError"
  using assms by (simp add: GlueDataset_getitem_def GlueDataset_len_def py_index_def)

theorem GlueDataset_getitem_out_of_range_witness:
  "int (GlueDataset_len (GlueDataset_init example_tokenizer example_raw 4)) \<le> 2
   \<and> GlueDataset_getitem (GlueDataset_init example_tokenizer example_raw 4) 2 = Inl IndexError"
proof -
  have h: "int (GlueDataset_len (GlueDataset_init example_tokenizer example_raw 4)) \<le> 2"
    by (simp add: GlueDataset_init_len example_raw_def)
  from h GlueDataset_getitem_out_of_range [OF h] show ?thesis by simp
qed

text \<open>
  Claim C10. At a negative index \<open>idx\<close> with \<open>-size \<le> idx < 0\<close> the indexed accessor does
  not fail: it returns the record of position \<open>size + idx\<close>, as Python list indexing does.
\<close>

theorem GlueDataset_getitem_negative_index:
  assumes "- int (GlueDataset_len (GlueDataset_init tok raw max_length)) \<le> idx" and "idx < 0"
  shows "\<exists>item.
      GlueDataset_getitem (GlueDataset_init tok raw max_length) idx = Inr item
      \<and> GlueDataset_getitem (GlueDataset_init tok raw max_length)
            (int (GlueDataset_len (GlueDataset_init tok raw max_length)) + idx) = Inr item
      \<and> item_labels item = label (raw ! nat (int (length raw) + idx))"
proof -
  from assms have range: "- int (length raw) \<le> idx" "idx < 0"
    by (simp_all add: GlueDataset_init_len)
  define j where "j = nat (int (length raw) + idx)"
  from range have j: "j < length raw" and ij: "int j = int (length raw) + idx"
    by (simp_all add: j_def)
  from GlueDataset_getitem_valid [OF j, of tok max_length] obtain item where
    "GlueDataset_getitem (GlueDataset_init tok raw max_length) (int j) = Inr item"
    "item_labels item = label (raw ! j)"
    by auto
  with GlueDataset_getitem_wraps [OF range, of tok max_length] ij
  show ?thesis
    by (simp add: GlueDataset_init_len j_def)
qed

theorem GlueDataset_getitem_negative_index_witness:
  "- int (GlueDataset_len (GlueDataset_init example_tokenizer example_raw 4)) \<le> - 2
   \<and> (- 2 :: int) < 0
   \<and> (\<exists>item.
        GlueDataset_getitem (GlueDataset_init example_tokenizer example_raw 4) (- 2) = Inr item
        \<and> GlueDataset_getitem (GlueDataset_init example_tokenizer example_raw 4) 0 = Inr item
        \<and> item_labels item = 1)"
proof -
  have h: "- int (GlueDataset_len (GlueDataset_init example_tokenizer example_raw 4)) \<le> - 2"
    by (simp add: GlueDataset_init_len example_raw_def)
  have len: "GlueDataset_len (GlueDataset_init example_tokenizer example_raw 4) = 2"
    by (simp add: GlueDataset_init_len example_raw_def)
  from GlueDataset_getitem_negative_index [OF h] len h show ?thesis
    by (simp add: example_raw_def)
qed

section \<open>Claims about the classification wrapper\<close>

lemma example_model_forward:
  "CustomClassifier_forward example_model (\<lambda>i j. True) [[3, 4]] [[1, 1]] = Inr [[10 / 9, 59 / 9]]"
  by (simp add: CustomClassifier_forward_def base_model_call_def select_first_def
      Sequential_forward_def Linear_forward_def dropout_def dot_def enumerate_eq_zip
      example_model_def CustomClassifier_init_def Linear_init_def new_parameter_def
      example_base_def from_pretrained_def example_network_def parameter_values_def
      num_labels_def upt_rec)

text \<open>
  Claim C5. With a head built for \<open>n\<close> labels (2 in the notebook), whenever the forward
  pass returns on a batch of \<open>B\<close> examples it returns exactly \<open>B\<close> logit vectors, each of
  length \<open>n\<close>; and it does return on every batch of non-empty sequences that the base
  model accepts.
\<close>

theorem CustomClassifier_forward_logits_shape:
  assumes "classifier_shape m n"
  shows "(\<forall>logits. CustomClassifier_forward m keep input_ids attention_mask = Inr logits \<longrightarrow>
            length logits = length input_ids \<and> list_all (\<lambda>row. length row = n) logits)
         \<and> (architecture_ok (base_model m) \<and> batch_ok input_ids attention_mask \<longrightarrow>
            (\<exists>logits. CustomClassifier_forward m keep input_ids attention_mask = Inr logits))"
  using CustomClassifier_forward_shape [OF _ assms] CustomClassifier_forward_total [OF assms]
  by blast

theorem CustomClassifier_forward_logits_shape_witness:
  "classifier_shape example_model num_labels
   \<and> architecture_ok (base_model example_model)
   \<and> batch_ok [[3, 4], [5, 6], [7, 8]] [[1, 1], [1, 1], [1, 0]]
   \<and> (\<exists>logits.
        CustomClassifier_forward example_model (\<lambda>i j. True)
          [[3, 4], [5, 6], [7, 8]] [[1, 1], [1, 1], [1, 0]] = Inr logits
        \<and> length logits = 3 \<and> list_all (\<lambda>row. length row = 2) logits)"
proof -
  have ok: "batch_ok [[3, 4], [5, 6], [7, 8]] [[1, 1], [1, 1], [1, 0]]"
    by (simp add: batch_ok_def)
  from CustomClassifier_forward_logits_shape [OF example_model_shape,
      of "\<lambda>i j. True" "[[3, 4], [5, 6], [7, 8]]" "[[1, 1], [1, 1], [1, 0]]"]
    example_base_ok ok
  obtain logits where
    "CustomClassifier_forward example_model (\<lambda>i j. True)
          [[3, 4], [5, 6], [7, 8]] [[1, 1], [1, 1], [1, 0]] = Inr logits"
    "length logits = 3" "list_all (\<lambda>row. length row = num_labels) logits"
    by auto
  with example_model_shape example_base_ok ok show ?thesis
    by (auto simp: num_labels_def)
qed

text \<open>
  Claim C6. The output of the forward pass is computed, for every example of the batch, by
  running the base model on the example's token ids and attention mask, taking the hidden
  state of the first position as the pooled representation, applying dropout to it in
  training mode only, and applying the one linear map of the head, which gives one output
  per row of its weight.
\<close>

theorem CustomClassifier_forward_refines_spec:
  assumes "CustomClassifier_forward m keep input_ids attention_mask = Inr logits"
  shows "\<exists>W b.
           data (weight (linear (classifier m))) = Mat W
           \<and> data (bias (linear (classifier m))) = Vec b
           \<and> length logits = length input_ids
           \<and> (\<forall>i < length input_ids. \<exists>hidden.
                 architecture (base_model m) (base_training (base_model m))
                   (parameter_values (base_parameters (base_model m)))
                   (input_ids ! i) (attention_mask ! i) = Inr hidden
                 \<and> hidden \<noteq> []
                 \<and> logits ! i = spec_logits m (keep i) W b hidden
                 \<and> length (logits ! i) = length W)"
  using CustomClassifier_forward_nth [OF assms] .

theorem CustomClassifier_forward_refines_spec_witness:
  "CustomClassifier_forward example_model (\<lambda>i j. True) [[3, 4]] [[1, 1]] = Inr [[10 / 9, 59 / 9]]
   \<and> (\<exists>W b hidden.
         data (weight (linear (classifier example_model))) = Mat W
         \<and> data (bias (linear (classifier example_model))) = Vec b
         \<and> architecture (base_model example_model) (base_training (base_model example_model))
             (parameter_values (base_parameters (base_model example_model))) [3, 4] [1, 1]
             = Inr hidden
         \<and> hidden \<noteq> []
         \<and> [10 / 9, 59 / 9] = spec_logits example_model (\<lambda>j. True) W b hidden)"
proof -
  from CustomClassifier_forward_refines_spec [OF example_model_forward]
  obtain W b where
    "data (weight (linear (classifier example_model))) = Mat W"
    "data (bias (linear (classifier example_model))) = Vec b"
    and each: "\<forall>i < length [[3, 4 :: int]]. \<exists>hidden.
       architecture (base_model example_model) (base_training (base_model example_model))
         (parameter_values (base_parameters (base_model example_model)))
         ([[3, 4]] ! i) ([[1, 1]] ! i) = Inr hidden
       \<and> hidden \<noteq> []
       \<and> [[10 / 9, 59 / 9]] ! i = spec_logits example_model (\<lambda>j. True) W b hidden
       \<and> length ([[10 / 9, 59 / 9 :: real]] ! i) = length W"
    by blast
  moreover from each have "\<exists>hidden.
       architecture (base_model example_model) (base_training (base_model example_model))
         (parameter_values (base_parameters (base_model example_model))) [3, 4] [1, 1]
         = Inr hidden
       \<and> hidden \<noteq> []
       \<and> [10 / 9, 59 / 9] = spec_logits example_model (\<lambda>j. True) W b hidden"
    by fastforce
  ultimately show ?thesis
    using example_model_forward by blast
qed

section \<open>Claims about the evaluation loop\<close>

lemma example_state_model:
  "model example_state = example_model"
  by (simp add: example_state_def initial_state_def example_model_def Let_def)

lemma example_validation_items:
  "map (row_item example_tokenizer 4) example_validation =
     [\<lparr>item_input_ids = [97, 98, 97, 98], item_attention_mask = [1, 1, 1, 1], item_labels = 1\<rparr>,
      \<lparr>item_input_ids = [97, 98, 0, 0], item_attention_mask = [1, 1, 0, 0], item_labels = 0\<rparr>,
      \<lparr>item_input_ids = [97, 98, 97, 0], item_attention_mask = [1, 1, 1, 0], item_labels = 1\<rparr>]"
  by (simp add: row_item_def tokenizer_call_def pad_to_max_length_def example_tokenizer_def
      example_validation_def truncate_longest_first.simps Let_def numeral_2_eq_2)

lemma example_logits:
  "CustomClassifier_forward (set_mode False example_model) keep [97 # ids] [[1, 1, m3, m4]]
     = Inr [[1, 100]]"
  if "length ids = 3"
  using that
  by (simp add: CustomClassifier_forward_def base_model_call_def select_first_def
      Sequential_forward_def Linear_forward_def dropout_def dot_def set_mode_def
      example_model_def CustomClassifier_init_def Linear_init_def new_parameter_def
      example_base_def from_pretrained_def example_network_def parameter_values_def
      num_labels_def upt_rec)

lemma example_first_max:
  "is_first_max [1, 100] (Suc 0)" "\<not> is_first_max [1, 100] 0"
  by (simp_all add: is_first_max_def upt_rec)

lemma example_correct_count:
  "correct_count (set_mode False example_model)
     (map (row_item example_tokenizer 4) example_validation) = 2"
  by (simp add: example_validation_items correct_count_def is_correct_def example_logits
      example_first_max)

text \<open>
  Claim C4. On a non-empty evaluation dataset the reported accuracy is the number of
  examples whose ground-truth label is the arg-max of their logits (the first position
  that holds the largest logit), divided by the size of the dataset, and it lies between 0
  and 1. (On an empty dataset the division raises ZeroDivisionError and no accuracy is
  reported.) The network of the base model is one that accepts the token ids of the
  tokenizer's vocabulary. The quotient is the exact one: the rounding of the floating-point
  division is not modelled.
\<close>

theorem evaluation_accuracy:
  assumes "classifier_shape (model st) n" and "0 < n"
    and "network_ok V shapes (base_model (model st))"
    and "shaped_like (parameter_values (base_parameters (base_model (model st)))) shapes"
    and "tokenizer_ok tok V"
    and "0 < max_length" and "0 < bs"
  shows "fst (evaluation lib
                \<lparr>dataset = GlueDataset_init tok raw max_length, batch_size = bs,
                 shuffle = False\<rparr> st) =
           (if raw = [] then Inl ZeroDivisionError
            else Inr (real (correct_count (set_mode False (model st))
                              (map (row_item tok max_length) raw))
                      / real (length raw)))
         \<and> 0 \<le> real (correct_count (set_mode False (model st))
                        (map (row_item tok max_length) raw)) / real (length raw)
         \<and> real (correct_count (set_mode False (model st))
                    (map (row_item tok max_length) raw)) / real (length raw) \<le> 1"
proof -
  have "correct_count (set_mode False (model st)) (map (row_item tok max_length) raw)
          \<le> length raw"
    using correct_count_le [of "set_mode False (model st)" "map (row_item tok max_length) raw"]
    by simp
  then have "real (correct_count (set_mode False (model st))
                    (map (row_item tok max_length) raw)) / real (length raw) \<le> 1"
    by (simp add: divide_le_eq_1)
  with evaluation_result [OF assms, of lib raw] show ?thesis
    by simp
qed

theorem evaluation_accuracy_witness:
  "classifier_shape (model example_state) num_labels \<and> 0 < num_labels
   \<and> network_ok 256 [(''w'', Vec [1, 2])] (base_model (model example_state))
   \<and> shaped_like (parameter_values (base_parameters (base_model (model example_state))))
       [(''w'', Vec [1, 2])]
   \<and> tokenizer_ok example_tokenizer 256
   \<and> (0 :: nat) < 4 \<and> (0 :: nat) < 8
   \<and> fst (evaluation example_lib
            \<lparr>dataset = GlueDataset_init example_tokenizer example_validation 4, batch_size = 8,
             shuffle = False\<rparr> example_state) = Inr (2 / 3)"
proof -
  have base: "base_model (model example_state) =
      from_pretrained 2 [(''w'', Vec [1, 2])] example_network [''w'']"
    by (simp add: example_state_model example_model_def CustomClassifier_init_def
        example_base_def)
  have h1: "classifier_shape (model example_state) num_labels"
    by (simp add: example_state_model example_model_shape)
  have h2: "0 < num_labels"
    by (simp add: num_labels_def)
  have h3: "network_ok 256 [(''w'', Vec [1, 2])] (base_model (model example_state))"
    unfolding base by (rule example_network_ok)
  have h4: "shaped_like (parameter_values (base_parameters (base_model (model example_state))))
       [(''w'', Vec [1, 2])]"
    unfolding base from_pretrained_values by (rule shaped_like_refl)
  have h5: "tokenizer_ok example_tokenizer 256"
    by (rule example_tokenizer_ok)
  have h6: "(0 :: nat) < 4" and h7: "(0 :: nat) < 8"
    by simp_all
  from evaluation_accuracy [OF h1 h2 h3 h4 h5 h6 h7, of example_lib example_validation]
  have "fst (evaluation example_lib
            \<lparr>dataset = GlueDataset_init example_tokenizer example_validation 4, batch_size = 8,
             shuffle = False\<rparr> example_state) = Inr (2 / 3)"
    by (simp add: example_state_model example_correct_count) (simp add: example_validation_def)
  with h1 h2 h3 h4 h5 show ?thesis by simp
qed

text \<open>
  Claim C9. The evaluation loop changes no parameter: after it, every parameter of the
  base model and of the classification head has the values, the gradient and the flag it
  had before, whatever the evaluation dataset, and whether or not the loop ends in an
  error. (It changes the mode flags, by \<^verbatim>\<open>model.eval()\<close>.)
\<close>

theorem evaluation_preserves_parameters:
  "named_parameters (model (snd (evaluation lib eval_loader st))) = named_parameters (model st)
   \<and> base_parameters (base_model (model (snd (evaluation lib eval_loader st))))
       = base_parameters (base_model (model st))
   \<and> linear (classifier (model (snd (evaluation lib eval_loader st))))
       = linear (classifier (model st))
   \<and> state_dict (model (snd (evaluation lib eval_loader st))) = state_dict (model st)"
  using evaluation_model [of lib eval_loader st]
  by (simp add: named_parameters_set_mode set_mode_fields state_dict_def)

section \<open>Claim about the training loop\<close>



section \<open>Claim about the saved artifact\<close>

text \<open>
  Claim C2, as stated: the artifact persisted at the end of the run is the parameter state
  of the classification head. It is not: the run \<open>example_run\<close> completes, and the file it
  leaves holds three entries, the first of them the parameter of the base model, and
  differs from the state of the head.
\<close>

theorem saved_artifact_counterexample:
  "\<not> isl (fst example_run)
   \<and> snd example_run ''./my_custom_model_falcon.pt''
       \<noteq> Some (head_state_dict (model (snd (projr (fst example_run)))))
   \<and> map fst (the (snd example_run ''./my_custom_model_falcon.pt''))
       = [''base_model.w'', ''classifier.1.weight'', ''classifier.1.bias'']"
proof -
  from example_notebook_run obtain acc st where
    run: "example_run =
            (Inr (acc, st), [''./my_custom_model_falcon.pt'' \<mapsto> state_dict (model st)])"
    by blast
  then obtain train_loader eval_loader st1 where
    "training_loop example_lib train_loader
       (initial_state example_lib example_base (\<lambda>i j. real (i + j)) real) = (Inr (), st1)"
    "evaluation example_lib eval_loader st1 = (Inr acc, st)"
    unfolding example_run_def by (auto dest!: notebook_completed)
  with training_loop_names [of example_lib train_loader example_base "\<lambda>i j. real (i + j)" real]
    evaluation_model [of example_lib eval_loader st1]
  have "map fst (named_parameters (model st)) =
          map (\<lambda>(n, p). ''base_model.'' @ n) (base_parameters example_base)
          @ [''classifier.1.weight'', ''classifier.1.bias'']"
    by (simp add: named_parameters_set_mode)
  then have three: "map fst (state_dict (model st)) =
      [''base_model.w'', ''classifier.1.weight'', ''classifier.1.bias'']"
    by (simp add: state_dict_names example_base_def from_pretrained_def)
  have "map fst (head_state_dict (model st)) = [''classifier.1.weight'', ''classifier.1.bias'']"
    by (simp add: head_state_dict_def)
  with three have "state_dict (model st) \<noteq> head_state_dict (model st)"
    by auto
  with three show ?thesis
    by (simp add: run)
qed

text \<open>
  Claim C2, amended. Whenever the run completes, the artifact persisted to
  \<^verbatim>\<open>./my_custom_model_falcon.pt\<close> is the parameter state of the whole trained model: the
  value of every parameter of the base model under the prefix \<^verbatim>\<open>base_model.\<close>, followed
  by the parameter state of the classification head, its weight and its bias; and these
  are the values that the training loop left.
\<close>

theorem saved_artifact_is_model_state:
  assumes "notebook lib tok base w0 b0 raw_train raw_validation fs = (Inr (acc, st), fs')"
  shows "fs' = fs(''./my_custom_model_falcon.pt'' \<mapsto> state_dict (model st))
         \<and> state_dict (model st) =
             map (\<lambda>(n, p). (''base_model.'' @ n, data p))
               (base_parameters (base_model (model st)))
             @ head_state_dict (model st)
         \<and> map fst (state_dict (model st)) =
             map (\<lambda>(n, p). ''base_model.'' @ n) (base_parameters base)
             @ [''classifier.1.weight'', ''classifier.1.bias'']
         \<and> (\<exists>train_loader st1.
               DataLoader_init
                 (GlueDataset_init (set_pad_token_to_eos tok) raw_train default_max_length)
                 8 True = Inr train_loader
               \<and> training_loop lib train_loader (initial_state lib base w0 b0) = (Inr (), st1)
               \<and> state_dict (model st) = state_dict (model st1))"
proof -
  from notebook_completed [OF assms] obtain train_loader eval_loader st1 where
    loader: "DataLoader_init
               (GlueDataset_init (set_pad_token_to_eos tok) raw_train default_max_length)
               8 True = Inr train_loader"
    and train: "training_loop lib train_loader (initial_state lib base w0 b0) = (Inr (), st1)"
    and ev: "evaluation lib eval_loader st1 = (Inr acc, st)"
    and saved: "fs' = save_model st fs"
    by (elim exE conjE) (rule that, assumption+)
  from ev evaluation_model [of lib eval_loader st1]
  have m: "model st = set_mode False (model st1)"
    by simp
  then have same: "state_dict (model st) = state_dict (model st1)"
    by (simp add: state_dict_set_mode)
  from train training_loop_names [of lib train_loader base w0 b0]
  have "map fst (named_parameters (model st1)) =
          map (\<lambda>(n, p). ''base_model.'' @ n) (base_parameters base)
          @ [''classifier.1.weight'', ''classifier.1.bias'']"
    by simp
  then have names: "map fst (state_dict (model st)) =
          map (\<lambda>(n, p). ''base_model.'' @ n) (base_parameters base)
          @ [''classifier.1.weight'', ''classifier.1.bias'']"
    by (simp only: same state_dict_names)
  from saved have written: "fs' = fs(''./my_custom_model_falcon.pt'' \<mapsto> state_dict (model st))"
    by (simp add: save_model_def torch_save_def)
  from loader train same
  have "\<exists>train_loader st1.
          DataLoader_init
            (GlueDataset_init (set_pad_token_to_eos tok) raw_train default_max_length)
            8 True = Inr train_loader
          \<and> training_loop lib train_loader (initial_state lib base w0 b0) = (Inr (), st1)
          \<and> state_dict (model st) = state_dict (model st1)"
    by (intro exI conjI)
  with written state_dict_structure [of "model st"] names show ?thesis
    by (intro conjI)
qed

theorem saved_artifact_is_model_state_witness:
  "\<exists>acc st.
     notebook example_lib example_tokenizer example_base (\<lambda>i j. real (i + j)) real
       example_raw example_raw Map.empty = (Inr (acc, st), snd example_run)
     \<and> snd example_run = [''./my_custom_model_falcon.pt'' \<mapsto> state_dict (model st)]
     \<and> map fst (state_dict (model st)) =
         [''base_model.w'', ''classifier.1.weight'', ''classifier.1.bias'']"
proof -
  from example_notebook_run obtain acc st where
    run: "example_run =
            (Inr (acc, st), [''./my_custom_model_falcon.pt'' \<mapsto> state_dict (model st)])"
    by blast
  then have hyp:
    "notebook example_lib example_tokenizer example_base (\<lambda>i j. real (i + j)) real
       example_raw example_raw Map.empty = (Inr (acc, st), snd example_run)"
    by (simp add: example_run_def)
  from saved_artifact_is_model_state [OF hyp]
  have "snd example_run = [''./my_custom_model_falcon.pt'' \<mapsto> state_dict (model st)]"
    and "map fst (state_dict (model st)) =
          map (\<lambda>(n, p). ''base_model.'' @ n) (base_parameters example_base)
          @ [''classifier.1.weight'', ''classifier.1.bias'']"
    by blast+
  then have "snd example_run = [''./my_custom_model_falcon.pt'' \<mapsto> state_dict (model st)]"
    and "map fst (state_dict (model st)) =
          [''base_model.w'', ''classifier.1.weight'', ''classifier.1.bias'']"
    by (simp_all add: example_base_def from_pretrained_def)
  with hyp show ?thesis
    by (intro exI conjI)
qed

end
